theory Spec2Isabelle
  imports Complex_Main
begin

section \<open>Data model\<close>

text \<open>
  The notebook \<^verbatim>\<open>supervised_classification.ipynb\<close> works on pandas data frames whose
  cells are numbers, strings or the missing marker (a floating-point NaN). Numbers are
  modelled by the rationals they denote; the rounding of floating-point arithmetic is
  not part of the model. A frame keeps its column labels (integers for a file read with
  \<^verbatim>\<open>header=None\<close>, names otherwise) and its rows.
\<close>

datatype error =
  FileNotFoundError | KeyError | IndexError | AttributeError | ValueError
  | InvalidIndexError | NameError | NotFittedError | Not_modelled

datatype cell = Num rat | Str string | NaN

record frame =
  columns :: "cell list"
  rows :: "cell list list"

definition wf_frame :: "frame \<Rightarrow> bool" where
  "wf_frame d \<longleftrightarrow>
     distinct (columns d) \<and> list_all (\<lambda>r. length r = length (columns d)) (rows d)"

text \<open>The labels \<^verbatim>\<open>0, 1, ..., n-1\<close> pandas gives the columns of a file without header.\<close>

definition range_labels :: "nat \<Rightarrow> cell list" where
  "range_labels n = map (\<lambda>j. Num (of_nat j)) [0..<n]"

definition headerless :: "frame \<Rightarrow> bool" where
  "headerless d \<longleftrightarrow> columns d = range_labels (length (columns d))"

definition is_Str :: "cell \<Rightarrow> bool" where
  "is_Str c = (case c of Str s \<Rightarrow> True | _ \<Rightarrow> False)"

fun index_of :: "'a list \<Rightarrow> 'a \<Rightarrow> nat option" where
  "index_of [] x = None"
| "index_of (y # ys) x = (if y = x then Some 0 else map_option Suc (index_of ys x))"

definition col :: "frame \<Rightarrow> nat \<Rightarrow> cell list" where
  "col d j = map (\<lambda>r. r ! j) (rows d)"

text \<open>
  \<^verbatim>\<open>dataset[label]\<close>: the column with that label, KeyError when there is none. With a
  repeated label pandas returns a frame instead of a column; that case is left out of the
  model.
\<close>

definition getitem :: "frame \<Rightarrow> cell \<Rightarrow> error + cell list" where
  "getitem d c =
     (if 1 < count_list (columns d) c then Inl Not_modelled
      else case index_of (columns d) c of
             None \<Rightarrow> Inl KeyError
           | Some j \<Rightarrow> Inr (col d j))"

section \<open>Load data and preprocessing: \<^verbatim>\<open>read_data\<close>\<close>

text \<open>
  \<^verbatim>\<open>pd.read_csv\<close> is the boundary to the file system: \<open>read_csv file header\<close> is the
  frame parsed from the file (\<open>header = False\<close> for \<^verbatim>\<open>header=None\<close>) or the error
  raised. The parser of \<^verbatim>\<open>pd.to_numeric\<close> for one string is the parameter \<open>parse\<close>:
  \<open>None\<close> where \<^verbatim>\<open>errors='coerce'\<close> yields NaN.
\<close>

definition reindex :: "cell list \<Rightarrow> frame \<Rightarrow> cell list list" where
  "reindex cs d =
     map (\<lambda>r. map (\<lambda>c. case index_of (columns d) c of None \<Rightarrow> NaN | Some j \<Rightarrow> r ! j) cs)
       (rows d)"

text \<open>\<^verbatim>\<open>a.append(b, ignore_index=True)\<close>: the rows of both, on the union of the columns.\<close>

definition append_frames :: "frame \<Rightarrow> frame \<Rightarrow> error + frame" where
  "append_frames a b =
     (if columns a = columns b then Inr \<lparr>columns = columns a, rows = rows a @ rows b\<rparr>
      else if distinct (columns a) \<and> distinct (columns b) then
        (let cs = columns a @ filter (\<lambda>c. c \<notin> set (columns a)) (columns b)
         in Inr \<lparr>columns = cs, rows = reindex cs a @ reindex cs b\<rparr>)
      else Inl InvalidIndexError)"

text \<open>\<^verbatim>\<open>.str.split('.').str[0]\<close> on one cell; an entry that is no string becomes NaN.\<close>

definition str_split_first :: "cell \<Rightarrow> cell" where
  "str_split_first c =
     (case c of Str s \<Rightarrow> Str (takeWhile (\<lambda>ch. ch \<noteq> CHR ''.'') s) | _ \<Rightarrow> NaN)"

definition map_last :: "('a \<Rightarrow> 'a) \<Rightarrow> 'a list \<Rightarrow> 'a list" where
  "map_last f r = (if r = [] then [] else butlast r @ [f (last r)])"

text \<open>
  \<^verbatim>\<open>data[data.columns[-1]] = data[data.columns[-1]].str.split('.').str[0]\<close>. The
  \<^verbatim>\<open>.str\<close> accessor raises AttributeError on a column that holds no string.
\<close>

definition strip_label_suffix :: "frame \<Rightarrow> error + frame" where
  "strip_label_suffix d =
     (if columns d = [] then Inl IndexError
      else case getitem d (last (columns d)) of
             Inl e \<Rightarrow> Inl e
           | Inr c \<Rightarrow>
               if c \<noteq> [] \<and> list_all (\<lambda>v. \<not> is_Str v) c then Inl AttributeError
               else Inr (d\<lparr>rows := map (map_last str_split_first) (rows d)\<rparr>))"

definition dx_columns :: "cell list" where
  "dx_columns = [Str ''Dx:Cancer'', Str ''Dx:CIN'', Str ''Dx:HPV'', Str ''Dx'',
                 Str ''Hinselmann'', Str ''Schiller'', Str ''Citology'']"

text \<open>\<^verbatim>\<open>data.drop(labels, axis=1, inplace=True)\<close>: KeyError when a label is no column.\<close>

definition drop_columns :: "cell list \<Rightarrow> frame \<Rightarrow> error + frame" where
  "drop_columns ls d =
     (if list_ex (\<lambda>l. l \<notin> set (columns d)) ls then Inl KeyError
      else Inr \<lparr>columns = filter (\<lambda>c. c \<notin> set ls) (columns d),
                rows = map (\<lambda>r. map snd (filter (\<lambda>cv. fst cv \<notin> set ls) (zip (columns d) r)))
                         (rows d)\<rparr>)"

text \<open>The branch on the dataset identifier, up to the frame the post-processing receives.\<close>

definition load_data :: "(string \<Rightarrow> bool \<Rightarrow> error + frame) \<Rightarrow> string \<Rightarrow> error + frame" where
  "load_data read_csv dataset_id =
     (if dataset_id = ''breast_cancer'' then read_csv ''wdbc.data'' False
      else if dataset_id = ''hyperthyroidism'' then
        (case read_csv ''allhyper.data'' False of
           Inl e \<Rightarrow> Inl e
         | Inr a \<Rightarrow>
             (case read_csv ''allhyper.test'' False of
                Inl e \<Rightarrow> Inl e
              | Inr b \<Rightarrow>
                  (case append_frames a b of
                     Inl e \<Rightarrow> Inl e
                   | Inr d \<Rightarrow> strip_label_suffix d)))
      else if dataset_id = ''cervical_cancer'' then
        (case read_csv ''risk_factors_cervical_cancer.csv'' True of
           Inl e \<Rightarrow> Inl e
         | Inr d \<Rightarrow> drop_columns dx_columns d)
      else read_csv ''Indian Liver Patient Dataset (ILPD).csv'' False)"

text \<open>\<^verbatim>\<open>pd.to_numeric(..., errors='coerce')\<close> on one cell.\<close>

definition to_numeric :: "(string \<Rightarrow> rat option) \<Rightarrow> cell \<Rightarrow> cell" where
  "to_numeric parse c =
     (case c of
        Str s \<Rightarrow> (case parse s of Some x \<Rightarrow> Num x | None \<Rightarrow> NaN)
      | _ \<Rightarrow> c)"

text \<open>\<^verbatim>\<open>.fillna(data)\<close> on one cell: a NaN takes the value of the frame given.\<close>

definition fillna :: "cell \<Rightarrow> cell \<Rightarrow> cell" where
  "fillna c orig = (if c = NaN then orig else c)"

text \<open>\<^verbatim>\<open>.replace(old, new)\<close> on one cell.\<close>

definition replace_value :: "cell \<Rightarrow> cell \<Rightarrow> cell \<Rightarrow> cell" where
  "replace_value old new c = (if c = old then new else c)"

definition post_process_cell :: "(string \<Rightarrow> rat option) \<Rightarrow> cell \<Rightarrow> cell" where
  "post_process_cell parse c =
     replace_value (Str ''?'') NaN (fillna (to_numeric parse c) c)"

definition read_data ::
  "(string \<Rightarrow> bool \<Rightarrow> error + frame) \<Rightarrow> (string \<Rightarrow> rat option) \<Rightarrow> string \<Rightarrow> error + frame" where
  "read_data read_csv parse dataset_id =
     (case load_data read_csv dataset_id of
        Inl e \<Rightarrow> Inl e
      | Inr data \<Rightarrow> Inr (data\<lparr>rows := map (map (post_process_cell parse)) (rows data)\<rparr>))"

text \<open>
  What numeric coercion makes of a cell, in the words of the specification: a number
  stays, a string is parsed, and there is nothing to coerce in a missing cell.
\<close>

definition coercion :: "(string \<Rightarrow> rat option) \<Rightarrow> cell \<Rightarrow> rat option" where
  "coercion parse c = (case c of Num x \<Rightarrow> Some x | Str s \<Rightarrow> parse s | NaN \<Rightarrow> None)"

section \<open>Return outcome values: \<^verbatim>\<open>outcome_values\<close>\<close>

text \<open>
  \<^verbatim>\<open>Series.value_counts().to_dict()\<close>: the count of every value of the column, a
  dict from value to count. The default \<^verbatim>\<open>dropna=True\<close> of \<^verbatim>\<open>value_counts\<close>
  leaves NaN out. pandas lists the entries by falling count; the order of the entries,
  which decides nothing but the order of the keys of later dicts, is not modelled.
\<close>

definition value_counts :: "cell list \<Rightarrow> (cell \<times> nat) list" where
  "value_counts xs = map (\<lambda>v. (v, count_list xs v)) (remdups (filter (\<lambda>c. c \<noteq> NaN) xs))"

definition outcome_values :: "string \<Rightarrow> frame \<Rightarrow> error + (cell \<times> nat) list" where
  "outcome_values dataset_id dataset =
     (if dataset_id = ''breast_cancer'' then
        (case getitem dataset (Num 1) of
           Inl e \<Rightarrow> Inl e
         | Inr c \<Rightarrow> Inr (value_counts c))
      else if columns dataset = [] then Inl IndexError
      else
        (case getitem dataset (last (columns dataset)) of
           Inl e \<Rightarrow> Inl e
         | Inr c \<Rightarrow> Inr (value_counts c)))"

text \<open>
  The label of a row as the specification names it: column index 1 for
  \<^verbatim>\<open>breast_cancer\<close>, the last column otherwise; and the number of rows with a label.
\<close>

definition label_of :: "string \<Rightarrow> cell list \<Rightarrow> cell" where
  "label_of dataset_id r = (if dataset_id = ''breast_cancer'' then r ! 1 else last r)"

definition occurrences :: "string \<Rightarrow> frame \<Rightarrow> cell \<Rightarrow> nat" where
  "occurrences dataset_id d v = length (filter (\<lambda>r. label_of dataset_id r = v) (rows d))"

section \<open>Model training: \<^verbatim>\<open>classify\<close>\<close>

text \<open>
  The values \<^verbatim>\<open>.values.tolist()\<close> produces: a scalar, or a list (a row of a matrix).
\<close>

datatype pyval = Scalar cell | PList "pyval list"

subsection \<open>Feature matrix and label vector\<close>

text \<open>
  \<^verbatim>\<open>pd.get_dummies\<close> of a column: one indicator column for every value that is not
  missing, in pandas' sorted order of the values (numbers before strings, strings by
  their characters).
\<close>

fun str_le :: "string \<Rightarrow> string \<Rightarrow> bool" where
  "str_le [] t = True"
| "str_le (a # s) [] = False"
| "str_le (a # s) (b # t) =
     ((of_char a :: nat) < of_char b \<or> (a = b \<and> str_le s t))"

fun cell_le :: "cell \<Rightarrow> cell \<Rightarrow> bool" where
  "cell_le (Num x) (Num y) = (x \<le> y)"
| "cell_le (Num x) (Str t) = True"
| "cell_le (Str s) (Num y) = False"
| "cell_le (Str s) (Str t) = str_le s t"
| "cell_le c NaN = True"
| "cell_le NaN c = False"

fun insort_cell :: "cell \<Rightarrow> cell list \<Rightarrow> cell list" where
  "insort_cell c [] = [c]"
| "insort_cell c (d # ds) = (if cell_le c d then c # d # ds else d # insort_cell c ds)"

definition categories :: "cell list \<Rightarrow> cell list" where
  "categories xs = foldr insort_cell (remdups (filter (\<lambda>c. c \<noteq> NaN) xs)) []"

definition dummies_row :: "cell list \<Rightarrow> cell \<Rightarrow> cell list" where
  "dummies_row cats v = map (\<lambda>c. if v = c then Num 1 else Num 0) cats"

text \<open>\<^verbatim>\<open>.replace({...})\<close> with a dict, on one cell.\<close>

definition replace_dict :: "(cell \<times> cell) list \<Rightarrow> cell \<Rightarrow> cell" where
  "replace_dict m c = (case map_of m c of None \<Rightarrow> c | Some v \<Rightarrow> v)"

definition hyper_codes :: "(cell \<times> cell) list" where
  "hyper_codes = [(Str ''F'', Num 0), (Str ''M'', Num 1), (Str ''f'', Num 0), (Str ''t'', Num 1)]"

definition liver_codes :: "(cell \<times> cell) list" where
  "liver_codes = [(Str ''Female'', Num 0), (Str ''Male'', Num 1)]"

text \<open>
  \<^verbatim>\<open>new_dataset\<close> of the \<^verbatim>\<open>hyperthyroidism\<close> branch: all columns but the last two,
  the indicator columns of the second to last, the last column; then the letters
  replaced. \<^verbatim>\<open>dataset.iloc[:,-2]\<close> raises IndexError on a frame of fewer than two
  columns.
\<close>

definition hyper_dataset :: "frame \<Rightarrow> error + frame" where
  "hyper_dataset dataset =
     (let n = length (columns dataset) in
      if n < 2 then Inl IndexError
      else
        (let cats = categories (col dataset (n - 2))
         in Inr \<lparr>columns = take (n - 2) (columns dataset) @ cats @ [columns dataset ! (n - 1)],
                  rows = map (\<lambda>r. map (replace_dict hyper_codes)
                                    (take (n - 2) r @ dummies_row cats (r ! (n - 2)) @ [r ! (n - 1)]))
                           (rows dataset)\<rparr>))"

definition liver_dataset :: "frame \<Rightarrow> frame" where
  "liver_dataset dataset = dataset\<lparr>rows := map (map (replace_dict liver_codes)) (rows dataset)\<rparr>"

text \<open>\<^verbatim>\<open>d.iloc[:, :-1].values.tolist()\<close> and \<^verbatim>\<open>d.iloc[:, -1:].values.tolist()\<close>.\<close>

definition features_but_last :: "frame \<Rightarrow> cell list list" where
  "features_but_last d = map butlast (rows d)"

definition last_column_matrix :: "frame \<Rightarrow> pyval list" where
  "last_column_matrix d = map (\<lambda>r. PList (map Scalar (drop (length r - 1) r))) (rows d)"

text \<open>The branch of \<^verbatim>\<open>classify\<close> on the dataset identifier: \<^verbatim>\<open>X\<close> and \<^verbatim>\<open>y\<close>.\<close>

definition to_X_y :: "string \<Rightarrow> frame \<Rightarrow> error + (cell list list \<times> pyval list)" where
  "to_X_y dataset_id dataset =
     (if dataset_id = ''hyperthyroidism'' then
        (case hyper_dataset dataset of
           Inl e \<Rightarrow> Inl e
         | Inr new_dataset \<Rightarrow> Inr (features_but_last new_dataset, last_column_matrix new_dataset))
      else if dataset_id = ''liver_cancer'' then
        (let new_dataset = liver_dataset dataset
         in Inr (features_but_last new_dataset, last_column_matrix new_dataset))
      else if dataset_id = ''breast_cancer'' then
        (case drop_columns [Num 1] dataset of
           Inl e \<Rightarrow> Inl e
         | Inr features \<Rightarrow>
             (case getitem dataset (Num 1) of
                Inl e \<Rightarrow> Inl e
              | Inr labels \<Rightarrow> Inr (rows features, map Scalar labels)))
      else Inr (features_but_last dataset, last_column_matrix dataset))"

subsection \<open>scikit-learn and the program state\<close>

text \<open>
  The four estimators of the notebook with their hyperparameters: the tree's
  \<^verbatim>\<open>max_depth\<close> and \<^verbatim>\<open>random_state\<close>, the number of neighbours, and the kernel,
  \<^verbatim>\<open>gamma\<close>, \<^verbatim>\<open>C\<close> and \<^verbatim>\<open>random_state\<close> of the support vector machine.
  A \<^verbatim>\<open>random_state\<close> is an integer seed or \<^verbatim>\<open>None\<close>, the default.
\<close>

datatype estimator =
  DecisionTreeClassifier nat "nat option"
  | KNeighborsClassifier nat
  | GaussianNB
  | SVC string rat rat "nat option"

text \<open>
  An estimator object: its hyperparameters and what the last \<^verbatim>\<open>fit\<close> learned, if any.
  The objects live in a heap, and the global variable \<^verbatim>\<open>model\<close> holds a reference.
\<close>

record 'f object =
  params :: estimator
  fitted :: "'f option"

text \<open>
  The scores \<^verbatim>\<open>evaluate\<close> rounds: a metric, computed for a positive label
  (\<^verbatim>\<open>average='binary'\<close>) or as the macro average.
\<close>

datatype metric = Precision | Recall | F1

datatype average = Binary cell | Macro

text \<open>
  scikit-learn and NumPy are a parameter of the model.
  \<^item> \<open>seed_rng seed\<close> is the generator \<^verbatim>\<open>RandomState(seed)\<close> made from an integer seed;
    \<open>shuffle g n\<close> is the permutation of \<open>0, ..., n-1\<close> the generator \<open>g\<close> draws, and
    the generator after the draw.
  \<^item> \<open>fit\<close> receives the object's hyperparameters, what the object had learned
    before, the generator the estimator draws from (none for an estimator that draws no
    random numbers), the train matrix and the train labels as \<^verbatim>\<open>classify\<close> passes
    them; it returns what the object has learned and the generator after the draws.
    \<open>predict\<close> returns the one-dimensional array of predicted labels.
  \<^item> \<open>tie_up\<close> belongs to the floating-point arithmetic of the metrics, see the
    rounding of \<^verbatim>\<open>evaluate\<close>.
\<close>

record ('f, 'g) sklearn =
  seed_rng :: "nat \<Rightarrow> 'g"
  shuffle :: "'g \<Rightarrow> nat \<Rightarrow> nat list \<times> 'g"
  fit :: "estimator \<Rightarrow> 'f option \<Rightarrow> 'g option \<Rightarrow> rat list list \<Rightarrow> pyval list \<Rightarrow>
            error + ('f \<times> 'g option)"
  predict :: "estimator \<Rightarrow> 'f \<Rightarrow> rat list list \<Rightarrow> error + cell list"
  tie_up :: "metric \<Rightarrow> average \<Rightarrow> cell list \<Rightarrow> cell list \<Rightarrow> bool"

text \<open>
  The state of the program between two calls: the heap of estimator objects, and NumPy's
  global generator, which every unseeded draw reads and advances.
\<close>

record ('f, 'g) state =
  objects :: "nat \<rightharpoonup> 'f object"
  ambient :: 'g

text \<open>
  \<^verbatim>\<open>check_random_state\<close>: the generator a call with the argument \<^verbatim>\<open>random_state\<close>
  draws from, the global one for \<^verbatim>\<open>None\<close> and a fresh seeded one for an integer.
\<close>

definition check_random_state :: "('f, 'g) sklearn \<Rightarrow> nat option \<Rightarrow> 'g \<Rightarrow> 'g" where
  "check_random_state sk random_state g =
     (case random_state of None \<Rightarrow> g | Some seed \<Rightarrow> seed_rng sk seed)"

text \<open>
  The generator \<^verbatim>\<open>fit\<close> draws from. The tree and the support vector machine call
  \<^verbatim>\<open>check_random_state\<close> on their \<^verbatim>\<open>random_state\<close>; the other two estimators have
  no such parameter and draw nothing. \<open>draws_global\<close> says whether \<^verbatim>\<open>fit\<close> reads and
  advances the global generator.
\<close>

fun estimator_rng :: "('f, 'g) sklearn \<Rightarrow> estimator \<Rightarrow> 'g \<Rightarrow> 'g option" where
  "estimator_rng sk (DecisionTreeClassifier max_depth random_state) g =
     Some (check_random_state sk random_state g)"
| "estimator_rng sk (KNeighborsClassifier n_neighbors) g = None"
| "estimator_rng sk GaussianNB g = None"
| "estimator_rng sk (SVC kern gam c random_state) g =
     Some (check_random_state sk random_state g)"

fun draws_global :: "estimator \<Rightarrow> bool" where
  "draws_global (DecisionTreeClassifier max_depth random_state) = (random_state = None)"
| "draws_global (KNeighborsClassifier n_neighbors) = False"
| "draws_global GaussianNB = False"
| "draws_global (SVC kern gam c random_state) = (random_state = None)"

text \<open>The permutation a fresh generator made from a seed draws.\<close>

definition permutation :: "('f, 'g) sklearn \<Rightarrow> nat \<Rightarrow> nat \<Rightarrow> nat list" where
  "permutation sk seed n = fst (shuffle sk (seed_rng sk seed) n)"

text \<open>What the library promises of a seeded draw: a permutation of the row indices.\<close>

definition is_permutation :: "(nat \<Rightarrow> nat \<Rightarrow> nat list) \<Rightarrow> bool" where
  "is_permutation perm \<longleftrightarrow>
     (\<forall>seed n. distinct (perm seed n) \<and> set (perm seed n) = {0..<n})"

subsection \<open>Split\<close>

text \<open>
  \<^verbatim>\<open>train_test_split(X, y, test_size=..., random_state=...)\<close> of scikit-learn: with
  \<open>n\<close> rows, the first \<open>\<lceil>test_size * n\<rceil>\<close> indices of the permutation drawn are the
  test rows and the others the train rows; an empty train set is a ValueError. The global
  generator \<open>g\<close> is read and advanced only when \<^verbatim>\<open>random_state\<close> is \<^verbatim>\<open>None\<close>.
\<close>

definition select :: "'a list \<Rightarrow> nat list \<Rightarrow> 'a list" where
  "select xs idx = map (\<lambda>i. xs ! i) idx"

definition split_indices ::
  "('f, 'g) sklearn \<Rightarrow> rat \<Rightarrow> nat option \<Rightarrow> nat \<Rightarrow> 'g \<Rightarrow> error + ((nat list \<times> nat list) \<times> 'g)" where
  "split_indices sk test_size random_state n g =
     (if test_size \<le> 0 \<or> 1 \<le> test_size then Inl ValueError
      else
        (let n_test = nat \<lceil>test_size * of_nat n\<rceil>;
             n_train = n - n_test
         in if n_train = 0 then Inl ValueError
            else
              (case shuffle sk (check_random_state sk random_state g) n of
                 (perm, g') \<Rightarrow>
                   Inr ((take n_train (drop n_test perm), take n_test perm),
                        (case random_state of None \<Rightarrow> g' | Some seed \<Rightarrow> g)))))"

definition train_test_split ::
  "('f, 'g) sklearn \<Rightarrow> 'a list \<Rightarrow> 'b list \<Rightarrow> rat \<Rightarrow> nat option \<Rightarrow> 'g \<Rightarrow>
     error + (('a list \<times> 'a list \<times> 'b list \<times> 'b list) \<times> 'g)" where
  "train_test_split sk X y test_size random_state g =
     (if length X \<noteq> length y then Inl ValueError
      else
        (case split_indices sk test_size random_state (length X) g of
           Inl e \<Rightarrow> Inl e
         | Inr ((train, test), g') \<Rightarrow>
             Inr ((select X train, select X test, select y train, select y test), g')))"

subsection \<open>Imputation\<close>

text \<open>
  \<^verbatim>\<open>SimpleImputer(missing_values=nan, strategy='mean')\<close>. The input must be a
  rectangular matrix of numbers and NaN with at least one row and one column (ValueError
  otherwise; a string left by \<^verbatim>\<open>read_data\<close> is taken to be no number for NumPy
  either). \<^verbatim>\<open>fit\<close> stores for every column the mean of its entries that are not
  missing, NaN (\<open>None\<close>) for a column with no entry; \<^verbatim>\<open>transform\<close> fills the missing
  cells of a column with its stored mean and drops the columns whose stored mean is NaN.
\<close>

fun numbers :: "cell list \<Rightarrow> rat list" where
  "numbers [] = []"
| "numbers (Num x # cs) = x # numbers cs"
| "numbers (c # cs) = numbers cs"

definition column_mean :: "cell list \<Rightarrow> rat option" where
  "column_mean c =
     (let xs = numbers c
      in if xs = [] then None else Some (sum_list xs / of_nat (length xs)))"

definition validate_input :: "cell list list \<Rightarrow> error + nat" where
  "validate_input X =
     (case X of
        [] \<Rightarrow> Inl ValueError
      | r # rs \<Rightarrow>
          if length r = 0 \<or> list_ex (\<lambda>s. length s \<noteq> length r) rs \<or> list_ex (list_ex is_Str) X
          then Inl ValueError
          else Inr (length r))"

definition imputer_fit :: "cell list list \<Rightarrow> error + rat option list" where
  "imputer_fit X =
     (case validate_input X of
        Inl e \<Rightarrow> Inl e
      | Inr n \<Rightarrow> Inr (map (\<lambda>j. column_mean (map (\<lambda>r. r ! j) X)) [0..<n]))"

fun impute_row :: "rat option list \<Rightarrow> cell list \<Rightarrow> rat list" where
  "impute_row (s # ss) (c # cs) =
     (case s of
        None \<Rightarrow> impute_row ss cs
      | Some m \<Rightarrow> (case c of Num x \<Rightarrow> x | _ \<Rightarrow> m) # impute_row ss cs)"
| "impute_row ss cs = []"

definition imputer_transform :: "rat option list \<Rightarrow> cell list list \<Rightarrow> error + rat list list" where
  "imputer_transform statistics X =
     (case validate_input X of
        Inl e \<Rightarrow> Inl e
      | Inr n \<Rightarrow>
          if n \<noteq> length statistics then Inl ValueError
          else Inr (map (impute_row statistics) X))"

subsection \<open>Fit and predict\<close>

text \<open>
  \<^verbatim>\<open>model.fit(X_train, y_train)\<close> and \<^verbatim>\<open>model.predict(X_test).tolist()\<close> on the
  object the global \<^verbatim>\<open>model\<close> refers to; NameError when the global is not bound.
\<close>

definition model_fit ::
  "('f, 'g) sklearn \<Rightarrow> ('f, 'g) state \<Rightarrow> nat \<Rightarrow> rat list list \<Rightarrow> pyval list \<Rightarrow>
     error + ('f, 'g) state" where
  "model_fit sk s model X y =
     (case objects s model of
        None \<Rightarrow> Inl NameError
      | Some obj \<Rightarrow>
          (case fit sk (params obj) (fitted obj) (estimator_rng sk (params obj) (ambient s)) X y of
             Inl e \<Rightarrow> Inl e
           | Inr (f, rng) \<Rightarrow>
               Inr (s\<lparr>objects := (objects s)(model \<mapsto> obj\<lparr>fitted := Some f\<rparr>),
                      ambient := (case rng of
                                    None \<Rightarrow> ambient s
                                  | Some g \<Rightarrow> if draws_global (params obj) then g else ambient s)\<rparr>)))"

definition model_predict ::
  "('f, 'g) sklearn \<Rightarrow> ('f, 'g) state \<Rightarrow> nat \<Rightarrow> rat list list \<Rightarrow> error + pyval list" where
  "model_predict sk s model X =
     (case objects s model of
        None \<Rightarrow> Inl NameError
      | Some obj \<Rightarrow>
          (case fitted obj of
             None \<Rightarrow> Inl NotFittedError
           | Some f \<Rightarrow>
               (case predict sk (params obj) f X of
                  Inl e \<Rightarrow> Inl e
                | Inr p \<Rightarrow> Inr (map Scalar p))))"

subsection \<open>The pipeline\<close>

text \<open>
  The split of \<^verbatim>\<open>classify\<close>: test share 0.2, \<^verbatim>\<open>random_state=0\<close>. \<open>g\<close> is the global
  generator when the call is made; the result holds the global generator after it.
\<close>

definition classify_split ::
  "('f, 'g) sklearn \<Rightarrow> 'g \<Rightarrow> string \<Rightarrow> frame \<Rightarrow>
     error + ((cell list list \<times> cell list list \<times> pyval list \<times> pyval list) \<times> 'g)" where
  "classify_split sk g dataset_id dataset =
     (case to_X_y dataset_id dataset of
        Inl e \<Rightarrow> Inl e
      | Inr (X, y) \<Rightarrow> train_test_split sk X y (1 / 5) (Some 0) g)"

text \<open>
  The imputer of \<^verbatim>\<open>classify\<close>: fitted on \<^verbatim>\<open>X_train\<close>, then applied to \<^verbatim>\<open>X_train\<close>
  and to \<^verbatim>\<open>X_test\<close>. The result keeps the fitted statistics beside the two matrices.
\<close>

definition classify_impute ::
  "cell list list \<Rightarrow> cell list list \<Rightarrow> error + (rat option list \<times> rat list list \<times> rat list list)" where
  "classify_impute X_train X_test =
     (case imputer_fit X_train of
        Inl e \<Rightarrow> Inl e
      | Inr statistics \<Rightarrow>
          (case imputer_transform statistics X_train of
             Inl e \<Rightarrow> Inl e
           | Inr X_train' \<Rightarrow>
               (case imputer_transform statistics X_test of
                  Inl e \<Rightarrow> Inl e
                | Inr X_test' \<Rightarrow> Inr (statistics, X_train', X_test'))))"

text \<open>
  \<^verbatim>\<open>classify(dataset_id, dataset)\<close> with the program state and the global \<^verbatim>\<open>model\<close>
  it reads: the state after the fit, the predictions and the actual labels.
\<close>

definition classify ::
  "('f, 'g) sklearn \<Rightarrow> ('f, 'g) state \<Rightarrow> nat \<Rightarrow> string \<Rightarrow> frame \<Rightarrow>
     error + (('f, 'g) state \<times> pyval list \<times> pyval list)" where
  "classify sk s model dataset_id dataset =
     (case classify_split sk (ambient s) dataset_id dataset of
        Inl e \<Rightarrow> Inl e
      | Inr ((X_train, X_test, y_train, y_test), g') \<Rightarrow>
          (case classify_impute X_train X_test of
             Inl e \<Rightarrow> Inl e
           | Inr (statistics, X_train', X_test') \<Rightarrow>
               (case model_fit sk (s\<lparr>ambient := g'\<rparr>) model X_train' y_train of
                  Inl e \<Rightarrow> Inl e
                | Inr s' \<Rightarrow>
                    (case model_predict sk s' model X_test' of
                       Inl e \<Rightarrow> Inl e
                     | Inr predictions \<Rightarrow> Inr (s', predictions, y_test)))))"

text \<open>
  The label of a row as \<^verbatim>\<open>classify\<close> encodes it: the replacement of letters in the
  \<^verbatim>\<open>hyperthyroidism\<close> and \<^verbatim>\<open>liver_cancer\<close> branches runs over the whole frame,
  the label column included.
\<close>

definition label_code :: "string \<Rightarrow> cell \<Rightarrow> cell" where
  "label_code dataset_id c =
     (if dataset_id = ''hyperthyroidism'' then replace_dict hyper_codes c
      else if dataset_id = ''liver_cancer'' then replace_dict liver_codes c
      else c)"

section \<open>Evaluation: \<^verbatim>\<open>evaluate\<close>\<close>

subsection \<open>The metrics of scikit-learn\<close>

text \<open>
  The metric functions read a list of scalars, or a list of one-element lists (a column
  vector, as \<^verbatim>\<open>classify\<close> returns the actual labels of most datasets), as a
  one-dimensional array of labels. A sequence of another shape is a ValueError.
\<close>

fun scalar_of :: "pyval \<Rightarrow> cell option" where
  "scalar_of (Scalar c) = Some c"
| "scalar_of (PList ys) = None"

fun single_of :: "pyval \<Rightarrow> cell option" where
  "single_of (PList [Scalar c]) = Some c"
| "single_of y = None"

definition column_or_1d :: "pyval list \<Rightarrow> error + cell list" where
  "column_or_1d ys =
     (if list_all (\<lambda>y. scalar_of y \<noteq> None) ys then Inr (map (\<lambda>y. the (scalar_of y)) ys)
      else if list_all (\<lambda>y. single_of y \<noteq> None) ys then Inr (map (\<lambda>y. the (single_of y)) ys)
      else Inl ValueError)"

text \<open>
  A class label is a string or a whole number. An array of numbers with a fraction or a
  NaN is a continuous target, which the classification metrics refuse with a ValueError.
  NumPy turns a sequence that mixes strings and numbers into strings; such sequences are
  left out of the model, as are labels of another kind than the sequences.
\<close>

definition is_class_label :: "cell \<Rightarrow> bool" where
  "is_class_label c =
     (case c of Num x \<Rightarrow> of_int \<lfloor>x\<rfloor> = x | Str s \<Rightarrow> True | NaN \<Rightarrow> False)"

definition same_kind :: "cell list \<Rightarrow> bool" where
  "same_kind cs \<longleftrightarrow> list_all is_Str cs \<or> list_all (\<lambda>c. \<not> is_Str c) cs"

text \<open>
  The checks every metric function starts with (\<^verbatim>\<open>_check_targets\<close>): equal
  lengths, label arrays, class labels.
\<close>

definition check_targets :: "pyval list \<Rightarrow> pyval list \<Rightarrow> error + (cell list \<times> cell list)" where
  "check_targets y_true y_pred =
     (if length y_true \<noteq> length y_pred then Inl ValueError
      else
        (case column_or_1d y_true of
           Inl e \<Rightarrow> Inl e
         | Inr t \<Rightarrow>
             (case column_or_1d y_pred of
                Inl e \<Rightarrow> Inl e
              | Inr p \<Rightarrow>
                  if \<not> same_kind (t @ p) then Inl Not_modelled
                  else if \<not> list_all is_class_label (t @ p) then Inl ValueError
                  else Inr (t, p))))"

text \<open>
  \<^verbatim>\<open>accuracy_score\<close>: the share of positions where the two arrays agree; NaN
  (\<open>None\<close>) for empty arrays.
\<close>

definition accuracy_score :: "cell list \<Rightarrow> cell list \<Rightarrow> rat option" where
  "accuracy_score t p =
     (if t = [] then None
      else Some (of_nat (length (filter (\<lambda>(a, b). a = b) (zip t p))) / of_nat (length t)))"

text \<open>The labels that occur in either array.\<close>

definition present_labels :: "cell list \<Rightarrow> cell list \<Rightarrow> cell list" where
  "present_labels t p = remdups (t @ p)"

text \<open>A ratio of counts, 0 when the denominator is 0 (\<^verbatim>\<open>zero_division\<close>).\<close>

definition ratio :: "nat \<Rightarrow> nat \<Rightarrow> rat" where
  "ratio a b = (if b = 0 then 0 else of_nat a / of_nat b)"

definition true_positives :: "cell \<Rightarrow> cell list \<Rightarrow> cell list \<Rightarrow> nat" where
  "true_positives l t p = length (filter (\<lambda>(a, b). a = l \<and> b = l) (zip t p))"

definition precision_of :: "cell \<Rightarrow> cell list \<Rightarrow> cell list \<Rightarrow> rat" where
  "precision_of l t p = ratio (true_positives l t p) (count_list p l)"

definition recall_of :: "cell \<Rightarrow> cell list \<Rightarrow> cell list \<Rightarrow> rat" where
  "recall_of l t p = ratio (true_positives l t p) (count_list t l)"

definition f1_of :: "cell \<Rightarrow> cell list \<Rightarrow> cell list \<Rightarrow> rat" where
  "f1_of l t p =
     (let pr = precision_of l t p; rc = recall_of l t p
      in if pr + rc = 0 then 0 else 2 * pr * rc / (pr + rc))"

text \<open>
  A metric with the default \<^verbatim>\<open>average='binary'\<close> and \<^verbatim>\<open>pos_label=l\<close>: a ValueError
  when the two arrays hold more than two labels (a multiclass target), and when they hold
  two labels and \<open>l\<close> is none of them; the metric of the class \<open>l\<close> otherwise.
\<close>

definition binary_score ::
  "(cell \<Rightarrow> cell list \<Rightarrow> cell list \<Rightarrow> rat) \<Rightarrow> cell list \<Rightarrow> cell list \<Rightarrow> cell \<Rightarrow> error + rat" where
  "binary_score metric t p l =
     (let present = present_labels t p
      in if 2 < length present then Inl ValueError
         else if l \<notin> set present \<and> 2 \<le> length present then Inl ValueError
         else Inr (metric l t p))"

text \<open>
  A metric with \<^verbatim>\<open>average='macro'\<close>: the unweighted mean of the metric over the
  labels that occur; \<^verbatim>\<open>pos_label\<close> is ignored.
\<close>

definition macro_score ::
  "(cell \<Rightarrow> cell list \<Rightarrow> cell list \<Rightarrow> rat) \<Rightarrow> cell list \<Rightarrow> cell list \<Rightarrow> rat" where
  "macro_score metric t p =
     (let present = present_labels t p
      in sum_list (map (\<lambda>l. metric l t p) present) / of_nat (length present))"

subsection \<open>Rounding\<close>

text \<open>
  \<^verbatim>\<open>round(x, 2)\<close> is applied to the float scikit-learn computed for a score, which
  is not the exact score. The model takes the float to lie so close to the exact score
  that both round to the same multiple of 1/100 whenever the exact score has a nearest
  one. When the exact score lies halfway between two multiples, the float may lie on
  either side of the tie (or on it, where rounding goes to the even neighbour), so the
  direction is not fixed by the exact score: \<open>up\<close> says whether the score is rounded up.
  For a score of \<^verbatim>\<open>evaluate\<close> the direction is the library parameter
  \<open>tie_up metric average t p\<close>.
\<close>

definition round2 :: "bool \<Rightarrow> rat \<Rightarrow> rat" where
  "round2 up x =
     (let f = \<lfloor>x * 100\<rfloor>; d = x * 100 - of_int f
      in if d < 1 / 2 then of_int f / 100
         else if 1 / 2 < d then of_int (f + 1) / 100
         else if up then of_int (f + 1) / 100 else of_int f / 100)"

text \<open>A number with at most two decimal places.\<close>

definition two_decimals :: "rat \<Rightarrow> bool" where
  "two_decimals x \<longleftrightarrow> of_int \<lfloor>x * 100\<rfloor> = x * 100"

subsection \<open>The evaluation\<close>

text \<open>
  The dict \<^verbatim>\<open>evaluate\<close> returns: under the key \<^verbatim>\<open>'accuracy'\<close> a number, under
  every label a dict of precision, recall and F1.
\<close>

record scores =
  precision :: rat
  recall :: rat
  f1 :: rat

datatype entry = Value "rat option" | Scores scores

type_synonym evaluation = "cell \<rightharpoonup> entry"

type_synonym ties = "metric \<Rightarrow> average \<Rightarrow> cell list \<Rightarrow> cell list \<Rightarrow> bool"

definition macro_scores :: "ties \<Rightarrow> cell list \<Rightarrow> cell list \<Rightarrow> scores" where
  "macro_scores ties t p =
     \<lparr>precision = round2 (ties Precision Macro t p) (macro_score precision_of t p),
      recall = round2 (ties Recall Macro t p) (macro_score recall_of t p),
      f1 = round2 (ties F1 Macro t p) (macro_score f1_of t p)\<rparr>"

text \<open>
  The body of the loop: the three binary metrics of the label, rounded; when one of them
  raises, the \<^verbatim>\<open>except\<close> branch with the three macro metrics, rounded.
\<close>

definition label_scores :: "ties \<Rightarrow> cell list \<Rightarrow> cell list \<Rightarrow> cell \<Rightarrow> scores" where
  "label_scores ties t p l =
     (case binary_score precision_of t p l of
        Inl e \<Rightarrow> macro_scores ties t p
      | Inr pr \<Rightarrow>
          (case binary_score recall_of t p l of
             Inl e \<Rightarrow> macro_scores ties t p
           | Inr rc \<Rightarrow>
               (case binary_score f1_of t p l of
                  Inl e \<Rightarrow> macro_scores ties t p
                | Inr f \<Rightarrow>
                    \<lparr>precision = round2 (ties Precision (Binary l) t p) pr,
                     recall = round2 (ties Recall (Binary l) t p) rc,
                     f1 = round2 (ties F1 (Binary l) t p) f\<rparr>)))"

text \<open>
  \<^verbatim>\<open>evaluate(labels, gold, predictions)\<close>; \<open>labels\<close> are the keys the loop runs over.
  An error of \<^verbatim>\<open>accuracy_score\<close> is raised before the loop and reaches the caller.
\<close>

definition evaluate :: "ties \<Rightarrow> cell list \<Rightarrow> pyval list \<Rightarrow> pyval list \<Rightarrow> error + evaluation" where
  "evaluate ties labels gold predictions =
     (case check_targets gold predictions of
        Inl e \<Rightarrow> Inl e
      | Inr (t, p) \<Rightarrow>
          if \<not> same_kind (labels @ t @ p) then Inl Not_modelled
          else Inr (foldl (\<lambda>evaluation l. evaluation(l \<mapsto> Scores (label_scores ties t p l)))
                      [Str ''accuracy'' \<mapsto> Value (accuracy_score t p)] labels))"

subsection \<open>The metrics in the words of the specification\<close>

text \<open>
  The number of positions at which the gold label and the predicted label stand in a
  given relation, and the metrics as ratios of such numbers: accuracy is the share of
  positions where the two agree; for a label taken as the positive class, precision is
  the share of true positives among the positions predicted positive, recall their share
  among the positions that are positive, and F1 is \<open>2 tp / (2 tp + fp + fn)\<close>; a ratio
  with denominator 0 counts as 0. A macro average is the unweighted mean of a metric over
  the labels that occur in either sequence.
\<close>

definition positions :: "(cell \<Rightarrow> cell \<Rightarrow> bool) \<Rightarrow> cell list \<Rightarrow> cell list \<Rightarrow> nat" where
  "positions R t p = length (filter (\<lambda>i. R (t ! i) (p ! i)) [0..<length t])"

definition spec_accuracy :: "cell list \<Rightarrow> cell list \<Rightarrow> rat" where
  "spec_accuracy t p = of_nat (positions (\<lambda>a b. a = b) t p) / of_nat (length t)"

definition spec_precision :: "cell \<Rightarrow> cell list \<Rightarrow> cell list \<Rightarrow> rat" where
  "spec_precision l t p =
     (if positions (\<lambda>a b. b = l) t p = 0 then 0
      else of_nat (positions (\<lambda>a b. a = l \<and> b = l) t p) / of_nat (positions (\<lambda>a b. b = l) t p))"

definition spec_recall :: "cell \<Rightarrow> cell list \<Rightarrow> cell list \<Rightarrow> rat" where
  "spec_recall l t p =
     (if positions (\<lambda>a b. a = l) t p = 0 then 0
      else of_nat (positions (\<lambda>a b. a = l \<and> b = l) t p) / of_nat (positions (\<lambda>a b. a = l) t p))"

definition spec_f1 :: "cell \<Rightarrow> cell list \<Rightarrow> cell list \<Rightarrow> rat" where
  "spec_f1 l t p =
     (let tp = positions (\<lambda>a b. a = l \<and> b = l) t p;
          fp = positions (\<lambda>a b. a \<noteq> l \<and> b = l) t p;
          fn = positions (\<lambda>a b. a = l \<and> b \<noteq> l) t p
      in if 2 * tp + fp + fn = 0 then 0 else of_nat (2 * tp) / of_nat (2 * tp + fp + fn))"

definition spec_macro ::
  "(cell \<Rightarrow> cell list \<Rightarrow> cell list \<Rightarrow> rat) \<Rightarrow> cell list \<Rightarrow> cell list \<Rightarrow> rat" where
  "spec_macro metric t p =
     (\<Sum>c\<in>set t \<union> set p. metric c t p) / of_nat (card (set t \<union> set p))"

text \<open>
  A reported score is a metric rounded to two decimal places: it has at most two decimal
  places and lies no further than 1/200 from the metric.
\<close>

definition rounded2 :: "rat \<Rightarrow> rat \<Rightarrow> bool" where
  "rounded2 r x \<longleftrightarrow> two_decimals r \<and> \<bar>r - x\<bar> \<le> 1 / 200"

section \<open>The driver\<close>

definition datasets :: "string list" where
  "datasets = [''breast_cancer'', ''hyperthyroidism'', ''cervical_cancer'', ''liver_cancer'']"

text \<open>
  The cell that defines \<^verbatim>\<open>classifiers\<close> runs once: it creates four estimator objects
  and a dict from each name to its object. \<open>initial_heap\<close> holds the four objects, not
  yet fitted, and \<open>classifiers\<close> the references the dict holds.
\<close>

definition classifiers :: "(string \<times> nat) list" where
  "classifiers = [(''Decision-Tree'', 0), (''K-NN'', 1), (''Naive-Bayes'', 2), (''SVM'', 3)]"

definition initial_heap :: "nat \<rightharpoonup> 'f object" where
  "initial_heap =
     [0 \<mapsto> \<lparr>params = DecisionTreeClassifier 5 (Some 1), fitted = None\<rparr>,
      1 \<mapsto> \<lparr>params = KNeighborsClassifier 3, fitted = None\<rparr>,
      2 \<mapsto> \<lparr>params = GaussianNB, fitted = None\<rparr>,
      3 \<mapsto> \<lparr>params = SVC ''rbf'' 2 1 (Some 1), fitted = None\<rparr>]"

text \<open>
  The body of the inner loop: \<^verbatim>\<open>classify\<close>, then \<^verbatim>\<open>evaluate\<close> on the actual labels
  and the predictions. The global \<^verbatim>\<open>model\<close> is the loop variable.
\<close>

definition pipeline ::
  "('f, 'g) sklearn \<Rightarrow> ('f, 'g) state \<Rightarrow> nat \<Rightarrow> string \<Rightarrow> frame \<Rightarrow> cell list \<Rightarrow>
     error + (('f, 'g) state \<times> pyval list \<times> evaluation)" where
  "pipeline sk s model dataset_id data labels =
     (case classify sk s model dataset_id data of
        Inl e \<Rightarrow> Inl e
      | Inr (s', pred, actual) \<Rightarrow>
          (case evaluate (tie_up sk) labels actual pred of
             Inl e \<Rightarrow> Inl e
           | Inr ev \<Rightarrow> Inr (s', pred, ev)))"

text \<open>
  What the driver prints for one pair of dataset and classifier: the identifier, the label
  counts, the classifier's name and the evaluation. \<open>run_model\<close> is not printed: it
  records the reference \<^verbatim>\<open>model\<close> held in that iteration.
\<close>

record run =
  run_dataset :: string
  run_labels :: "(cell \<times> nat) list"
  run_classifier :: string
  run_model :: nat
  run_evaluation :: evaluation

text \<open>\<^verbatim>\<open>for _, model in classifiers.items()\<close>; an error ends the whole run.\<close>

fun run_classifiers ::
  "('f, 'g) sklearn \<Rightarrow> ('f, 'g) state \<Rightarrow> string \<Rightarrow> frame \<Rightarrow> (cell \<times> nat) list \<Rightarrow>
     (string \<times> nat) list \<Rightarrow> error + (('f, 'g) state \<times> run list)" where
  "run_classifiers sk s dataset_id data labels [] = Inr (s, [])"
| "run_classifiers sk s dataset_id data labels ((name, model) # cs) =
     (case pipeline sk s model dataset_id data (map fst labels) of
        Inl e \<Rightarrow> Inl e
      | Inr (s', pred, ev) \<Rightarrow>
          (case run_classifiers sk s' dataset_id data labels cs of
             Inl e \<Rightarrow> Inl e
           | Inr (s'', rs) \<Rightarrow>
               Inr (s'', \<lparr>run_dataset = dataset_id, run_labels = labels, run_classifier = name,
                          run_model = model, run_evaluation = ev\<rparr> # rs)))"

text \<open>\<^verbatim>\<open>for dataset_id in datasets\<close>.\<close>

fun run_datasets ::
  "(string \<Rightarrow> bool \<Rightarrow> error + frame) \<Rightarrow> (string \<Rightarrow> rat option) \<Rightarrow> ('f, 'g) sklearn \<Rightarrow>
     ('f, 'g) state \<Rightarrow> (string \<times> nat) list \<Rightarrow> string list \<Rightarrow>
     error + (('f, 'g) state \<times> run list)" where
  "run_datasets read_csv parse sk s cls [] = Inr (s, [])"
| "run_datasets read_csv parse sk s cls (dataset_id # ds) =
     (case read_data read_csv parse dataset_id of
        Inl e \<Rightarrow> Inl e
      | Inr data \<Rightarrow>
          (case outcome_values dataset_id data of
             Inl e \<Rightarrow> Inl e
           | Inr labels \<Rightarrow>
               (case run_classifiers sk s dataset_id data labels cls of
                  Inl e \<Rightarrow> Inl e
                | Inr (s', rs) \<Rightarrow>
                    (case run_datasets read_csv parse sk s' cls ds of
                       Inl e \<Rightarrow> Inl e
                     | Inr (s'', rs') \<Rightarrow> Inr (s'', rs @ rs')))))"

text \<open>
  The whole notebook, started with the global generator in the state \<open>g\<close>.
\<close>

definition driver ::
  "(string \<Rightarrow> bool \<Rightarrow> error + frame) \<Rightarrow> (string \<Rightarrow> rat option) \<Rightarrow> ('f, 'g) sklearn \<Rightarrow> 'g \<Rightarrow>
     error + (('f, 'g) state \<times> run list)" where
  "driver read_csv parse sk g =
     run_datasets read_csv parse sk \<lparr>objects = initial_heap, ambient = g\<rparr> classifiers datasets"

text \<open>
  What the estimators of scikit-learn promise of \<^verbatim>\<open>fit\<close>: it starts from the
  hyperparameters and forgets what an earlier \<^verbatim>\<open>fit\<close> learned.
\<close>

definition fit_resets :: "('f, 'g) sklearn \<Rightarrow> bool" where
  "fit_resets sk \<longleftrightarrow> (\<forall>k prev prev' rng X y. fit sk k prev rng X y = fit sk k prev' rng X y)"

text \<open>The hyperparameters of the objects in a heap, whatever they have learned.\<close>

definition kinds :: "(nat \<rightharpoonup> 'f object) \<Rightarrow> nat \<Rightarrow> estimator option" where
  "kinds h a = map_option params (h a)"

subsection \<open>A run in the words of the specification\<close>

text \<open>
  What a (dataset, classifier) run does to the program state: the dataset is read and
  its labels counted, the dataset is split, the imputer is fitted on the train rows, and
  the object the run's reference points to is fitted on the filled train rows and the
  train labels, starting from what the object held; the state after the run holds the
  fitted object under the same reference and every other object as before. The object
  then predicts the filled test rows, and the run's evaluation compares the predictions
  with the test labels.
\<close>

definition run_fits ::
  "(string \<Rightarrow> bool \<Rightarrow> error + frame) \<Rightarrow> (string \<Rightarrow> rat option) \<Rightarrow> ('f, 'g) sklearn \<Rightarrow>
     run \<Rightarrow> ('f, 'g) state \<Rightarrow> ('f, 'g) state \<Rightarrow> bool" where
  "run_fits read_csv parse sk r s s' \<longleftrightarrow>
     (\<exists>data obj X_train X_test y_train y_test statistics f rng pred.
        read_data read_csv parse (run_dataset r) = Inr data \<and>
        outcome_values (run_dataset r) data = Inr (run_labels r) \<and>
        objects s (run_model r) = Some obj \<and>
        classify_split sk (ambient s) (run_dataset r) data =
          Inr ((X_train, X_test, y_train, y_test), ambient s) \<and>
        imputer_fit X_train = Inr statistics \<and>
        fit sk (params obj) (fitted obj) (estimator_rng sk (params obj) (ambient s))
          (map (impute_row statistics) X_train) y_train = Inr (f, rng) \<and>
        objects s' = (objects s)(run_model r \<mapsto> obj\<lparr>fitted := Some f\<rparr>) \<and>
        predict sk (params obj) f (map (impute_row statistics) X_test) = Inr pred \<and>
        evaluate (tie_up sk) (map fst (run_labels r)) y_test (map Scalar pred) =
          Inr (run_evaluation r))"

text \<open>
  A list of runs leads from a state to a state when every run takes the state the run
  before it left to the state the next run starts from.
\<close>

inductive chain :: "('r \<Rightarrow> 's \<Rightarrow> 's \<Rightarrow> bool) \<Rightarrow> 's \<Rightarrow> 'r list \<Rightarrow> 's \<Rightarrow> bool"
  for step :: "'r \<Rightarrow> 's \<Rightarrow> 's \<Rightarrow> bool" where
  chain_Nil: "chain step s [] s"
| chain_Cons: "step r s s1 \<Longrightarrow> chain step s1 rs s' \<Longrightarrow> chain step s (r # rs) s'"

section \<open>Example inputs\<close>

definition ex_labels_frame :: frame where
  "ex_labels_frame =
     \<lparr>columns = [Num 0, Num 1],
      rows = [[Num 1, Str ''M''], [Num 2, NaN], [Num 3, Str ''M'']]\<rparr>"

text \<open>
  A stand-in for scikit-learn: a generator is a counter, the generator made from seed 0
  reverses the indices and every other one leaves them in order; an estimator shuffles
  the train labels with its generator, if it has one, learns the label that comes first
  and predicts it for every row; ties are rounded up.
\<close>

definition ex_shuffle :: "nat \<Rightarrow> nat \<Rightarrow> nat list \<times> nat" where
  "ex_shuffle g n = (if g = 0 then rev [0..<n] else [0..<n], Suc g)"

definition ex_fit ::
  "estimator \<Rightarrow> cell option \<Rightarrow> nat option \<Rightarrow> rat list list \<Rightarrow> pyval list \<Rightarrow>
     error + (cell \<times> nat option)" where
  "ex_fit k prev rng X y =
     (case (case rng of None \<Rightarrow> y | Some g \<Rightarrow> select y (fst (ex_shuffle g (length y)))) of
        Scalar c # _ \<Rightarrow> Inr (c, map_option (\<lambda>g. snd (ex_shuffle g (length y))) rng)
      | PList [Scalar c] # _ \<Rightarrow> Inr (c, map_option (\<lambda>g. snd (ex_shuffle g (length y))) rng)
      | _ \<Rightarrow> Inl ValueError)"

definition ex_sk :: "(cell, nat) sklearn" where
  "ex_sk = \<lparr>seed_rng = (\<lambda>seed. seed),
            shuffle = ex_shuffle,
            fit = ex_fit,
            predict = (\<lambda>k f X. Inr (map (\<lambda>r. f) X)),
            tie_up = (\<lambda>m a t p. True)\<rparr>"

definition ex_heap :: "(cell, nat) state" where
  "ex_heap = \<lparr>objects = [0 \<mapsto> \<lparr>params = GaussianNB, fitted = None\<rparr>], ambient = 7\<rparr>"

text \<open>A state with a seeded tree and one with a tree that has no seed.\<close>

definition ex_tree_state :: "nat \<Rightarrow> (cell, nat) state" where
  "ex_tree_state g =
     \<lparr>objects = [0 \<mapsto> \<lparr>params = DecisionTreeClassifier 5 (Some 1), fitted = None\<rparr>],
      ambient = g\<rparr>"

definition ex_unseeded_state :: "nat \<Rightarrow> (cell, nat) state" where
  "ex_unseeded_state g =
     \<lparr>objects = [0 \<mapsto> \<lparr>params = DecisionTreeClassifier 5 None, fitted = None\<rparr>],
      ambient = g\<rparr>"

definition ex_frame :: frame where
  "ex_frame =
     \<lparr>columns = [Str ''Age'', Str ''Smokes'', Str ''Biopsy''],
      rows = [[Num 30, NaN, Num 0], [Num 40, Num 1, Num 1], [Num 50, Num 3, Num 0]]\<rparr>"

definition ex_parse :: "string \<Rightarrow> rat option" where
  "ex_parse s = (if s = ''1'' then Some 1 else if s = ''2.5'' then Some (5 / 2) else None)"

definition ex_csv :: "string \<Rightarrow> bool \<Rightarrow> error + frame" where
  "ex_csv file header =
     Inr \<lparr>columns = [Num 0, Num 1], rows = [[Str ''2.5'', Str ''?''], [Str ''Male'', Num 2]]\<rparr>"

definition ex_breast_frame :: frame where
  "ex_breast_frame =
     \<lparr>columns = [Num 0, Num 1, Num 2],
      rows = [[Num 1, Str ''M'', Num 17], [Num 2, Str ''B'', Num 12], [Num 3, Str ''M'', Num 20]]\<rparr>"

definition ex_labels :: "cell list" where
  "ex_labels = [Str ''a'', Str ''b'', Str ''c'']"

definition ex_gold :: "pyval list" where
  "ex_gold = [PList [Scalar (Str ''a'')], PList [Scalar (Str ''a'')], PList [Scalar (Str ''b'')]]"

definition ex_predictions :: "pyval list" where
  "ex_predictions = [Scalar (Str ''a''), Scalar (Str ''b''), Scalar (Str ''b'')]"

definition ex_gold3 :: "pyval list" where
  "ex_gold3 = [Scalar (Str ''a''), Scalar (Str ''b''), Scalar (Str ''c''), Scalar (Str ''c'')]"

definition ex_predictions3 :: "pyval list" where
  "ex_predictions3 = [Scalar (Str ''a''), Scalar (Str ''c''), Scalar (Str ''c''), Scalar (Str ''c'')]"

definition ex_two_labels :: "cell list" where
  "ex_two_labels = [Str ''B'', Str ''M'']"

definition ex_gold_one :: "pyval list" where
  "ex_gold_one = [Scalar (Str ''B''), Scalar (Str ''B'')]"

definition ex_predictions_one :: "pyval list" where
  "ex_predictions_one = [Scalar (Str ''B''), Scalar (Str ''B'')]"

text \<open>Four small files for a run of the driver.\<close>

definition ex_hyper_data :: frame where
  "ex_hyper_data =
     \<lparr>columns = [Num 0, Num 1, Num 2, Num 3],
      rows = [[Num 41, Str ''F'', Str ''SVI'', Str ''negative.|3733''],
              [Num 23, Str ''M'', Str ''other'', Str ''hyperthyroid.|1442'']]\<rparr>"

definition ex_hyper_test :: frame where
  "ex_hyper_test =
     \<lparr>columns = [Num 0, Num 1, Num 2, Num 3],
      rows = [[Num 46, Str ''?'', Str ''other'', Str ''negative.|219'']]\<rparr>"

definition ex_cervical_file :: frame where
  "ex_cervical_file =
     \<lparr>columns = [Str ''Age'', Str ''Smokes'', Str ''Dx:Cancer'', Str ''Dx:CIN'', Str ''Dx:HPV'',
                 Str ''Dx'', Str ''Hinselmann'', Str ''Schiller'', Str ''Citology'', Str ''Biopsy''],
      rows = [[Num 18, Str ''?'', Num 0, Num 0, Num 0, Num 0, Num 0, Num 0, Num 0, Num 0],
              [Num 34, Str ''1'', Num 0, Num 0, Num 0, Num 0, Num 1, Num 1, Num 1, Num 1],
              [Num 52, Str ''2.5'', Num 0, Num 0, Num 0, Num 0, Num 0, Num 0, Num 0, Num 0]]\<rparr>"

definition ex_liver_file :: frame where
  "ex_liver_file =
     \<lparr>columns = [Num 0, Num 1, Num 2],
      rows = [[Num 65, Str ''Female'', Num 1], [Num 62, Str ''Male'', Num 1],
              [Num 58, Str ''Male'', Num 2]]\<rparr>"

definition ex_files :: "string \<Rightarrow> bool \<Rightarrow> error + frame" where
  "ex_files file header =
     (if file = ''wdbc.data'' \<and> \<not> header then Inr ex_breast_frame
      else if file = ''allhyper.data'' \<and> \<not> header then Inr ex_hyper_data
      else if file = ''allhyper.test'' \<and> \<not> header then Inr ex_hyper_test
      else if file = ''risk_factors_cervical_cancer.csv'' \<and> header then Inr ex_cervical_file
      else if file = ''Indian Liver Patient Dataset (ILPD).csv'' \<and> \<not> header then Inr ex_liver_file
      else Inl FileNotFoundError)"

section \<open>Properties of the loader and of the label summary\<close>

lemma post_process_cell_coerced:
  "coercion parse c = Some x \<Longrightarrow> post_process_cell parse c = Num x"
  by (auto simp: coercion_def post_process_cell_def replace_value_def fillna_def to_numeric_def
      split: cell.splits)

lemma post_process_cell_kept:
  "coercion parse c = None \<Longrightarrow> c \<noteq> Str ''?'' \<Longrightarrow> post_process_cell parse c = c"
  by (auto simp: coercion_def post_process_cell_def replace_value_def fillna_def to_numeric_def
      split: cell.splits)

lemma post_process_cell_sentinel:
  "parse ''?'' = None \<Longrightarrow> post_process_cell parse (Str ''?'') = NaN"
  by (simp add: post_process_cell_def replace_value_def fillna_def to_numeric_def)

text \<open>
  Claim C9. Provided \<^verbatim>\<open>pd.to_numeric\<close> finds no number in the sentinel \<^verbatim>\<open>?\<close>, the
  frame \<^verbatim>\<open>read_data\<close> returns has the columns and the shape of the frame loaded for the
  identifier, and each of its cells is the number the original cell coerces to when the
  coercion succeeds, the original cell when the coercion fails and the cell is not the
  sentinel, and the missing marker when the original cell is the sentinel. This holds
  for every dataset identifier.
\<close>

theorem read_data_post_processing:
  assumes sentinel: "parse ''?'' = None"
    and rd: "read_data read_csv parse dataset_id = Inr d"
  shows "\<exists>raw. load_data read_csv dataset_id = Inr raw \<and> columns d = columns raw \<and>
           length (rows d) = length (rows raw) \<and>
           (\<forall>i j. i < length (rows raw) \<longrightarrow> j < length (rows raw ! i) \<longrightarrow>
              length (rows d ! i) = length (rows raw ! i) \<and>
              (\<forall>x. coercion parse (rows raw ! i ! j) = Some x \<longrightarrow> rows d ! i ! j = Num x) \<and>
              (coercion parse (rows raw ! i ! j) = None \<and> rows raw ! i ! j \<noteq> Str ''?'' \<longrightarrow>
                 rows d ! i ! j = rows raw ! i ! j) \<and>
              (rows raw ! i ! j = Str ''?'' \<longrightarrow> rows d ! i ! j = NaN))"
proof -
  from rd obtain raw where raw: "load_data read_csv dataset_id = Inr raw"
    and d: "d = raw\<lparr>rows := map (map (post_process_cell parse)) (rows raw)\<rparr>"
    by (auto simp: read_data_def split: sum.splits)
  have cellij: "rows d ! i ! j = post_process_cell parse (rows raw ! i ! j)"
    if "i < length (rows raw)" "j < length (rows raw ! i)" for i j
    using that by (simp add: d)
  show ?thesis
    using raw sentinel
    by (intro exI[of _ raw])
       (auto simp: cellij d post_process_cell_coerced post_process_cell_kept
          post_process_cell_sentinel)
qed

theorem read_data_post_processing_witness:
  "ex_parse ''?'' = None \<and>
   read_data ex_csv ex_parse ''liver_cancer'' =
     Inr \<lparr>columns = [Num 0, Num 1], rows = [[Num (5 / 2), NaN], [Str ''Male'', Num 2]]\<rparr> \<and>
   (\<exists>raw. load_data ex_csv ''liver_cancer'' = Inr raw \<and>
      rows raw ! 0 ! 0 = Str ''2.5'' \<and> rows raw ! 0 ! 1 = Str ''?'' \<and>
      rows raw ! 1 ! 0 = Str ''Male'')"
proof -
  have h1: "ex_parse ''?'' = None" by (simp add: ex_parse_def)
  have h2: "read_data ex_csv ex_parse ''liver_cancer'' =
     Inr \<lparr>columns = [Num 0, Num 1], rows = [[Num (5 / 2), NaN], [Str ''Male'', Num 2]]\<rparr>"
    by (simp add: read_data_def load_data_def ex_csv_def post_process_cell_def replace_value_def
        fillna_def to_numeric_def ex_parse_def)
  from read_data_post_processing[OF h1 h2]
  obtain raw where raw: "load_data ex_csv ''liver_cancer'' = Inr raw" by blast
  then have "raw = \<lparr>columns = [Num 0, Num 1],
                    rows = [[Str ''2.5'', Str ''?''], [Str ''Male'', Num 2]]\<rparr>"
    by (simp add: load_data_def ex_csv_def)
  with raw h1 h2 show ?thesis by auto
qed

lemma index_of_nth:
  "distinct xs \<Longrightarrow> j < length xs \<Longrightarrow> index_of xs (xs ! j) = Some j"
proof (induction xs arbitrary: j)
  case Nil
  then show ?case by simp
next
  case (Cons y ys)
  show ?case
  proof (cases j)
    case 0
    then show ?thesis by simp
  next
    case (Suc k)
    with Cons.prems have "ys ! k \<in> set ys" "y \<notin> set ys" by auto
    then have "y \<noteq> ys ! k" by auto
    with Cons Suc show ?thesis by simp
  qed
qed

lemma index_of_less: "index_of xs x = Some j \<Longrightarrow> j < length xs \<and> xs ! j = x"
  by (induction xs arbitrary: j) (auto split: if_splits)

lemma count_list_map_filter:
  "count_list (map f xs) v = length (filter (\<lambda>x. f x = v) xs)"
  by (induction xs) auto

lemma range_labels_nth: "j < n \<Longrightarrow> range_labels n ! j = Num (of_nat j)"
  by (simp add: range_labels_def)

lemma map_of_graph:
  "map_of (map (\<lambda>k. (k, f k)) ks) v = (if v \<in> set ks then Some (f v) else None)"
  by (induction ks) auto

lemma value_counts_occurrences:
  "map_of (value_counts (map f rs)) v =
     (if v = NaN \<or> length (filter (\<lambda>r. f r = v) rs) = 0 then None
      else Some (length (filter (\<lambda>r. f r = v) rs)))"
  unfolding value_counts_def map_of_graph count_list_map_filter[symmetric]
  by (auto simp: count_list_0_iff)

lemma value_counts_keys: "distinct (map fst (value_counts xs))"
  by (simp add: value_counts_def comp_def)

lemma label_column_breast:
  assumes "wf_frame d" "headerless d" "index_of (columns d) (Num 1) = Some j"
  shows "col d j = map (label_of ''breast_cancer'') (rows d)"
proof -
  from assms(3) have j: "j < length (columns d)" "columns d ! j = Num 1"
    using index_of_less by fastforce+
  with assms(2) have "Num (of_nat j) = Num (1::rat)"
    by (metis headerless_def range_labels_nth)
  then have "j = 1" by simp
  then show ?thesis by (simp add: col_def label_of_def)
qed

lemma label_column_last:
  assumes "wf_frame d" "columns d \<noteq> []" "index_of (columns d) (last (columns d)) = Some j"
    "dataset_id \<noteq> ''breast_cancer''"
  shows "col d j = map (label_of dataset_id) (rows d)"
proof -
  let ?n = "length (columns d)"
  from assms(1) have dist: "distinct (columns d)" by (simp add: wf_frame_def)
  from assms(2) have "last (columns d) = columns d ! (?n - 1)" "?n - 1 < ?n"
    by (simp_all add: last_conv_nth)
  with dist assms(3) have j: "j = ?n - 1"
    using index_of_nth[of "columns d" "?n - 1"] by simp
  have "r ! j = last r" if "r \<in> set (rows d)" for r
  proof -
    from that assms(1) have "length r = ?n" by (simp add: wf_frame_def list_all_iff)
    with assms(2) j show ?thesis by (cases r rule: rev_cases) (auto simp: nth_append)
  qed
  with assms(4) show ?thesis by (simp add: col_def label_of_def)
qed

text \<open>
  Claim C4, as the code has it. For a well-formed frame (of a file without header when
  the identifier is \<^verbatim>\<open>breast_cancer\<close>), the mapping \<^verbatim>\<open>outcome_values\<close> returns gives
  every value of the label column that is not the missing marker its exact number of
  occurrences over all rows, where the label column is column index 1 for
  \<^verbatim>\<open>breast_cancer\<close> and the last column otherwise; a value that does not occur is no
  key, and the missing marker is never a key.
\<close>

theorem outcome_values_counts:
  assumes wf: "wf_frame d"
    and hl: "dataset_id = ''breast_cancer'' \<Longrightarrow> headerless d"
    and ov: "outcome_values dataset_id d = Inr m"
  shows "distinct (map fst m) \<and> map_of m NaN = None \<and>
    (\<forall>v. v \<noteq> NaN \<longrightarrow>
       map_of m v = (if occurrences dataset_id d v = 0 then None
                     else Some (occurrences dataset_id d v)))"
proof -
  from ov obtain j where m: "m = value_counts (col d j)"
    and lab: "col d j = map (label_of dataset_id) (rows d)"
    using label_column_breast[OF wf] label_column_last[OF wf] hl
    by (auto simp: outcome_values_def getitem_def split: if_splits option.splits)
  have "distinct (map fst m)" unfolding m by (rule value_counts_keys)
  then show ?thesis
    unfolding m lab value_counts_occurrences occurrences_def by simp
qed

theorem outcome_values_counts_witness:
  "wf_frame ex_labels_frame \<and> headerless ex_labels_frame \<and>
   outcome_values ''breast_cancer'' ex_labels_frame = Inr [(Str ''M'', 2)] \<and>
   map_of [(Str ''M'', 2 :: nat)] NaN = None \<and>
   occurrences ''breast_cancer'' ex_labels_frame (Str ''M'') = 2 \<and>
   occurrences ''breast_cancer'' ex_labels_frame (Str ''B'') = 0"
proof -
  have wf: "wf_frame ex_labels_frame"
    by (simp add: wf_frame_def ex_labels_frame_def)
  have hl: "headerless ex_labels_frame"
    by (simp add: headerless_def ex_labels_frame_def range_labels_def upt_rec)
  have ov: "outcome_values ''breast_cancer'' ex_labels_frame = Inr [(Str ''M'', 2)]"
    by (simp add: outcome_values_def getitem_def col_def value_counts_def ex_labels_frame_def)
  from outcome_values_counts[OF wf hl ov]
  have counts: "v \<noteq> NaN \<Longrightarrow>
      map_of [(Str ''M'', 2)] v =
        (if occurrences ''breast_cancer'' ex_labels_frame v = 0 then None
         else Some (occurrences ''breast_cancer'' ex_labels_frame v))" for v
    by blast
  from counts[of "Str ''M''"]
  have m: "occurrences ''breast_cancer'' ex_labels_frame (Str ''M'') = 2"
    by (simp split: if_splits)
  from counts[of "Str ''B''"]
  have b: "occurrences ''breast_cancer'' ex_labels_frame (Str ''B'') = 0"
    by (simp split: if_splits)
  from wf hl ov m b show ?thesis by simp
qed

text \<open>
  Claim C4 as stated fails: in the example frame one row has a missing label, and the
  mapping returned for it has no entry under the missing marker.
\<close>

theorem outcome_values_missing_label_counterexample:
  "occurrences ''breast_cancer'' ex_labels_frame NaN = 1 \<and>
   outcome_values ''breast_cancer'' ex_labels_frame = Inr [(Str ''M'', 2)]"
  by (simp add: occurrences_def label_of_def outcome_values_def getitem_def col_def
      value_counts_def ex_labels_frame_def)

section \<open>Properties of the training pipeline\<close>

lemma permutation_length:
  assumes "is_permutation p"
  shows "length (p seed n) = n"
proof -
  from assms have "distinct (p seed n)" "set (p seed n) = {0..<n}"
    by (simp_all add: is_permutation_def)
  then show ?thesis by (metis card_atLeastLessThan diff_zero distinct_card)
qed

lemma test_count_fifth: "nat \<lceil>(1 / 5 :: rat) * of_nat n\<rceil> = (n + 4) div 5"
proof -
  have "\<lceil>(1 / 5 :: rat) * of_nat n\<rceil> = \<lceil>(of_int (int n) :: rat) / of_int 5\<rceil>" by simp
  also have "\<dots> = - ((- int n) div 5)" by (simp only: ceiling_divide_eq_div)
  finally show ?thesis by linarith
qed

lemma split_indices_seeded:
  "split_indices sk test_size (Some seed) n g =
     (if test_size \<le> 0 \<or> 1 \<le> test_size then Inl ValueError
      else if n - nat \<lceil>test_size * of_nat n\<rceil> = 0 then Inl ValueError
      else Inr ((take (n - nat \<lceil>test_size * of_nat n\<rceil>)
                   (drop (nat \<lceil>test_size * of_nat n\<rceil>) (permutation sk seed n)),
                 take (nat \<lceil>test_size * of_nat n\<rceil>) (permutation sk seed n)), g))"
  by (simp add: split_indices_def check_random_state_def permutation_def Let_def
      split: prod.splits)

lemma split_indices_fifth:
  "split_indices sk (1 / 5) (Some seed) n g =
     (if n - (n + 4) div 5 = 0 then Inl ValueError
      else Inr ((take (n - (n + 4) div 5) (drop ((n + 4) div 5) (permutation sk seed n)),
                 take ((n + 4) div 5) (permutation sk seed n)), g))"
  unfolding split_indices_seeded test_count_fifth by simp

lemma split_indices_parts:
  assumes perm: "is_permutation (permutation sk)"
    and split: "split_indices sk (1 / 5) (Some seed) n g = Inr ((train, test), g')"
  shows "test @ train = permutation sk seed n"
    and "length test = (n + 4) div 5"
    and "train \<noteq> []"
    and "g' = g"
proof -
  let ?k = "(n + 4) div 5"
  from split have k: "n - ?k \<noteq> 0"
    and train: "train = take (n - ?k) (drop ?k (permutation sk seed n))"
    and test: "test = take ?k (permutation sk seed n)"
    and g: "g' = g"
    unfolding split_indices_fifth by (auto split: if_splits)
  have len: "length (permutation sk seed n) = n" by (rule permutation_length[OF perm])
  from train len have train': "train = drop ?k (permutation sk seed n)" by simp
  show "test @ train = permutation sk seed n" by (simp add: test train')
  from k len show "length test = ?k" by (simp add: test)
  from k len show "train \<noteq> []" by (simp add: train')
  show "g' = g" by (rule g)
qed

lemma split_indices_returns:
  assumes "2 \<le> n"
  shows "\<exists>train test. split_indices sk (1 / 5) (Some seed) n g = Inr ((train, test), g)"
proof -
  from assms have "n - (n + 4) div 5 \<noteq> 0" by linarith
  then show ?thesis unfolding split_indices_fifth by simp
qed

lemma to_X_y_lengths:
  assumes "to_X_y dataset_id dataset = Inr (X, y)"
  shows "length X = length (rows dataset)" and "length y = length (rows dataset)"
  using assms
  by (auto simp: to_X_y_def hyper_dataset_def liver_dataset_def features_but_last_def
      last_column_matrix_def drop_columns_def getitem_def col_def Let_def
      split: if_splits sum.splits option.splits)

lemma classify_split_Inr:
  assumes "classify_split sk g dataset_id dataset = Inr ((X_train, X_test, y_train, y_test), g')"
  shows "\<exists>X y train test. to_X_y dataset_id dataset = Inr (X, y) \<and>
     split_indices sk (1 / 5) (Some 0) (length (rows dataset)) g = Inr ((train, test), g') \<and>
     X_train = select X train \<and> X_test = select X test \<and>
     y_train = select y train \<and> y_test = select y test \<and> g' = g"
proof -
  from assms obtain X y where xy: "to_X_y dataset_id dataset = Inr (X, y)"
    and tts: "train_test_split sk X y (1 / 5) (Some 0) g =
        Inr ((X_train, X_test, y_train, y_test), g')"
    by (auto simp: classify_split_def split: sum.splits)
  from tts to_X_y_lengths[OF xy] obtain train test
    where si: "split_indices sk (1 / 5) (Some 0) (length (rows dataset)) g = Inr ((train, test), g')"
      and sel: "X_train = select X train" "X_test = select X test"
        "y_train = select y train" "y_test = select y test"
    by (auto simp: train_test_split_def split: if_splits sum.splits)
  from si have "g' = g" unfolding split_indices_fifth by (auto split: if_splits)
  with xy si sel show ?thesis by blast
qed

lemma validate_input_Inr:
  assumes "validate_input X = Inr n"
  shows "X \<noteq> []" and "n = length (hd X)" and "0 < n"
    and "\<And>r. r \<in> set X \<Longrightarrow> length r = n"
    and "\<And>r c. r \<in> set X \<Longrightarrow> c \<in> set r \<Longrightarrow> \<not> is_Str c"
  using assms
  by (auto simp: validate_input_def list_ex_iff split: list.splits if_splits)

lemma classify_impute_Inr:
  assumes "classify_impute X_train X_test = Inr (statistics, A, B)"
  shows "statistics = map (\<lambda>j. column_mean (map (\<lambda>r. r ! j) X_train)) [0..<length (hd X_train)]"
    and "A = map (impute_row statistics) X_train"
    and "B = map (impute_row statistics) X_test"
    and "validate_input X_train = Inr (length statistics)"
    and "validate_input X_test = Inr (length statistics)"
  using assms
  by (auto simp: classify_impute_def imputer_fit_def imputer_transform_def
      dest: validate_input_Inr(2) split: sum.splits if_splits)

lemma classify_Inr:
  assumes "classify sk s model dataset_id dataset = Inr (s', predictions, actual)"
  shows "\<exists>X_train X_test y_train statistics.
           classify_split sk (ambient s) dataset_id dataset =
             Inr ((X_train, X_test, y_train, actual), ambient s) \<and>
           classify_impute X_train X_test =
             Inr (statistics, map (impute_row statistics) X_train,
                  map (impute_row statistics) X_test) \<and>
           model_fit sk s model (map (impute_row statistics) X_train) y_train = Inr s' \<and>
           model_predict sk s' model (map (impute_row statistics) X_test) = Inr predictions"
proof -
  from assms obtain X_train X_test y_train g' statistics A B
    where split: "classify_split sk (ambient s) dataset_id dataset =
        Inr ((X_train, X_test, y_train, actual), g')"
      and imp: "classify_impute X_train X_test = Inr (statistics, A, B)"
      and fit: "model_fit sk (s\<lparr>ambient := g'\<rparr>) model A y_train = Inr s'"
      and pred: "model_predict sk s' model B = Inr predictions"
    by (auto simp: classify_def split: sum.splits prod.splits)
  from classify_split_Inr[OF split] have g: "g' = ambient s" by blast
  from fit have fit': "model_fit sk s model A y_train = Inr s'" by (simp add: g)
  from classify_impute_Inr(2,3)[OF imp] split imp fit' pred show ?thesis
    unfolding g by blast
qed

lemma select_nth: "length (select xs idx) = length idx"
  "k < length idx \<Longrightarrow> select xs idx ! k = xs ! (idx ! k)"
  by (simp_all add: select_def)

text \<open>
  Claim C7. Whenever a seeded generator yields a permutation of the row indices and the
  dataset has at least two rows, the split of \<^verbatim>\<open>classify\<close> returns, whatever the state
  of the global generator: the train rows (features and labels) and the test rows are
  the rows of the dataset at two index lists, row by row, and the two lists are disjoint,
  free of repetitions and together cover every row index. So the train count and the
  test count add up to the row count; the test count is a fifth of the rows, rounded up.
  The split takes the fixed seed and depends neither on the heap nor on the estimator:
  every run of \<^verbatim>\<open>classify\<close> on the dataset, whichever estimator \<^verbatim>\<open>model\<close> refers to,
  fits it on the same train rows and returns the labels of the same test rows.
\<close>

theorem classify_split_partition:
  assumes perm: "is_permutation (permutation sk)"
    and xy: "to_X_y dataset_id dataset = Inr (X, y)"
    and two: "2 \<le> length (rows dataset)"
  shows "\<exists>train test X_train X_test y_train y_test.
           (\<forall>g. classify_split sk g dataset_id dataset =
                  Inr ((X_train, X_test, y_train, y_test), g)) \<and>
           length X = length (rows dataset) \<and> length y = length (rows dataset) \<and>
           length X_train = length train \<and> length y_train = length train \<and>
           length X_test = length test \<and> length y_test = length test \<and>
           (\<forall>k<length train. X_train ! k = X ! (train ! k) \<and> y_train ! k = y ! (train ! k)) \<and>
           (\<forall>k<length test. X_test ! k = X ! (test ! k) \<and> y_test ! k = y ! (test ! k)) \<and>
           length X_train + length X_test = length (rows dataset) \<and>
           length X_test = (length (rows dataset) + 4) div 5 \<and>
           set train \<inter> set test = {} \<and>
           set train \<union> set test = {0..<length (rows dataset)} \<and>
           distinct train \<and> distinct test \<and>
           (\<forall>s model s' predictions actual.
              classify sk s model dataset_id dataset = Inr (s', predictions, actual) \<longrightarrow>
              actual = y_test \<and>
              (\<exists>statistics.
                 model_fit sk s model (map (impute_row statistics) X_train) y_train = Inr s'))"
proof -
  let ?n = "length (rows dataset)"
  from xy have len: "length X = ?n" "length y = ?n" by (rule to_X_y_lengths)+
  define train where "train = take (?n - (?n + 4) div 5) (drop ((?n + 4) div 5) (permutation sk 0 ?n))"
  define test where "test = take ((?n + 4) div 5) (permutation sk 0 ?n)"
  from two have "?n - (?n + 4) div 5 \<noteq> 0" by linarith
  then have si: "split_indices sk (1 / 5) (Some 0) ?n g = Inr ((train, test), g)" for g
    unfolding split_indices_fifth train_def test_def by simp
  let ?Xtr = "select X train" and ?Xte = "select X test"
  let ?ytr = "select y train" and ?yte = "select y test"
  have cs: "classify_split sk g dataset_id dataset = Inr ((?Xtr, ?Xte, ?ytr, ?yte), g)" for g
    by (simp add: classify_split_def xy train_test_split_def len si)
  have whole: "test @ train = permutation sk 0 ?n"
    by (rule split_indices_parts(1)[OF perm si])
  have ltest: "length test = (?n + 4) div 5"
    by (rule split_indices_parts(2)[OF perm si])
  from perm have d: "distinct (test @ train)" and st: "set (test @ train) = {0..<?n}"
    unfolding whole by (simp_all add: is_permutation_def)
  have "length (test @ train) = ?n"
    unfolding whole by (rule permutation_length[OF perm])
  then have l: "length train + length test = ?n" by simp
  have same: "actual = ?yte \<and>
      (\<exists>statistics. model_fit sk s model (map (impute_row statistics) ?Xtr) ?ytr = Inr s')"
    if "classify sk s model dataset_id dataset = Inr (s', predictions, actual)"
    for s model s' predictions actual
    using classify_Inr[OF that] cs by auto
  have rows_train: "\<forall>k<length train. ?Xtr ! k = X ! (train ! k) \<and> ?ytr ! k = y ! (train ! k)"
    and rows_test: "\<forall>k<length test. ?Xte ! k = X ! (test ! k) \<and> ?yte ! k = y ! (test ! k)"
    by (simp_all add: select_nth)
  from d st have parts: "set train \<inter> set test = {}" "set train \<union> set test = {0..<?n}"
    "distinct train" "distinct test" by auto
  show ?thesis
    apply (rule exI[of _ train], rule exI[of _ test], rule exI[of _ ?Xtr], rule exI[of _ ?Xte],
        rule exI[of _ ?ytr], rule exI[of _ ?yte])
    using cs len rows_train rows_test l ltest parts same
    by (simp add: select_nth(1))
qed


lemma ex_sk_permutation: "is_permutation (permutation ex_sk)"
  by (auto simp: is_permutation_def permutation_def ex_sk_def ex_shuffle_def)

lemma upt3: "[0..<3] = [0, 1, 2]" by (simp add: upt_rec)

lemma ex_permutation: "permutation ex_sk 0 n = rev [0..<n]"
  by (simp add: permutation_def ex_sk_def ex_shuffle_def)

lemma ex_to_X_y: "to_X_y ''cervical_cancer'' ex_frame =
  Inr ([[Num 30, NaN], [Num 40, Num 1], [Num 50, Num 3]],
       [PList [Scalar (Num 0)], PList [Scalar (Num 1)], PList [Scalar (Num 0)]])"
  by (simp add: to_X_y_def features_but_last_def last_column_matrix_def ex_frame_def)

lemma ex_split: "classify_split ex_sk g ''cervical_cancer'' ex_frame =
  Inr (([[Num 40, Num 1], [Num 30, NaN]], [[Num 50, Num 3]],
        [PList [Scalar (Num 1)], PList [Scalar (Num 0)]], [PList [Scalar (Num 0)]]), g)"
  unfolding classify_split_def ex_to_X_y train_test_split_def split_indices_fifth
  by (simp add: ex_permutation select_def upt3)

lemma ex_impute: "classify_impute [[Num 40, Num 1], [Num 30, NaN]] [[Num 50, Num 3]] =
    Inr ([Some 35, Some 1], [[40, 1], [30, 1]], [[50, 3]])"
  by (simp add: classify_impute_def imputer_fit_def imputer_transform_def
      validate_input_def is_Str_def column_mean_def upt_rec)

lemma ex_classify: "classify ex_sk ex_heap 0 ''cervical_cancer'' ex_frame =
   Inr (ex_heap\<lparr>objects := (objects ex_heap)(0 \<mapsto> \<lparr>params = GaussianNB, fitted = Some (Num 1)\<rparr>)\<rparr>,
        [Scalar (Num 1)], [PList [Scalar (Num 0)]])"
  unfolding classify_def ex_split
  by (simp add: ex_impute model_fit_def model_predict_def ex_heap_def ex_sk_def ex_fit_def)

theorem classify_split_partition_witness:
  "is_permutation (permutation ex_sk) \<and>
   2 \<le> length (rows ex_frame) \<and>
   classify_split ex_sk 7 ''cervical_cancer'' ex_frame =
     Inr (([[Num 40, Num 1], [Num 30, NaN]], [[Num 50, Num 3]],
           [PList [Scalar (Num 1)], PList [Scalar (Num 0)]], [PList [Scalar (Num 0)]]), 7) \<and>
   (\<exists>train test. length train = 2 \<and> length test = 1 \<and> set train \<inter> set test = {} \<and>
      set train \<union> set test = {0..<3} \<and>
      [Num 50, Num 3] = [[Num 30, NaN], [Num 40, Num 1], [Num 50, Num 3]] ! (test ! 0))"
proof -
  have two: "2 \<le> length (rows ex_frame)" by (simp add: ex_frame_def)
  have n: "length (rows ex_frame) = 3" by (simp add: ex_frame_def)
  let ?X = "[[Num 30, NaN], [Num 40, Num 1], [Num 50, Num 3]]"
  from classify_split_partition[OF ex_sk_permutation ex_to_X_y two]
  obtain train test X_train X_test y_train y_test where
    cs: "\<forall>g. classify_split ex_sk g ''cervical_cancer'' ex_frame =
                  Inr ((X_train, X_test, y_train, y_test), g)"
    and lens: "length X_train = length train" "length X_test = length test"
    and rows_test: "\<forall>k<length test. X_test ! k = ?X ! (test ! k) \<and>
        y_test ! k = [PList [Scalar (Num 0)], PList [Scalar (Num 1)], PList [Scalar (Num 0)]] ! (test ! k)"
    and parts: "set train \<inter> set test = {}" "set train \<union> set test = {0..<3}"
    unfolding n by blast
  from cs[rule_format, of 7] have X: "X_train = [[Num 40, Num 1], [Num 30, NaN]]"
    "X_test = [[Num 50, Num 3]]"
    by (simp_all add: ex_split)
  from lens X have l: "length train = 2" "length test = 1" by simp_all
  with rows_test X have "[Num 50, Num 3] = ?X ! (test ! 0)" by auto
  with l parts ex_sk_permutation two ex_split[of 7] show ?thesis by blast
qed

lemma numbers_sum:
  "list_all (\<lambda>c. \<not> is_Str c) cs \<Longrightarrow>
   sum_list (numbers cs) = sum_list (map (\<lambda>c. case c of Num x \<Rightarrow> x | _ \<Rightarrow> 0) cs)"
  by (induction cs rule: numbers.induct) (auto simp: is_Str_def)

lemma numbers_length:
  "list_all (\<lambda>c. \<not> is_Str c) cs \<Longrightarrow>
   length (numbers cs) = length (filter (\<lambda>c. c \<noteq> NaN) cs)"
  by (induction cs rule: numbers.induct) (auto simp: is_Str_def)

lemma numbers_empty:
  "list_all (\<lambda>c. \<not> is_Str c) cs \<Longrightarrow> numbers cs = [] \<longleftrightarrow> list_all (\<lambda>c. c = NaN) cs"
  by (induction cs rule: numbers.induct) (auto simp: is_Str_def)

lemma column_mean_explicit:
  assumes "\<And>r. r \<in> set X \<Longrightarrow> \<not> is_Str (r ! j)"
  shows "column_mean (map (\<lambda>r. r ! j) X) =
     (if list_all (\<lambda>r. r ! j = NaN) X then None
      else Some (sum_list (map (\<lambda>r. case r ! j of Num x \<Rightarrow> x | _ \<Rightarrow> 0) X)
                 / of_nat (length (filter (\<lambda>r. r ! j \<noteq> NaN) X))))"
proof -
  let ?c = "map (\<lambda>r. r ! j) X"
  from assms have ns: "list_all (\<lambda>c. \<not> is_Str c) ?c"
    by (simp add: list_all_iff)
  have 1: "sum_list (numbers ?c) = sum_list (map (\<lambda>r. case r ! j of Num x \<Rightarrow> x | _ \<Rightarrow> 0) X)"
    using numbers_sum[OF ns] by (simp add: comp_def)
  have 2: "length (numbers ?c) = length (filter (\<lambda>r. r ! j \<noteq> NaN) X)"
    using numbers_length[OF ns] by (simp add: filter_map comp_def)
  have 3: "numbers ?c = [] \<longleftrightarrow> list_all (\<lambda>r. r ! j = NaN) X"
    using numbers_empty[OF ns] by (simp add: list_all_iff)
  show ?thesis
    unfolding column_mean_def Let_def 1 2 3 by simp
qed

lemma impute_row_explicit:
  "length r = length ss \<Longrightarrow>
   impute_row ss r =
     map (\<lambda>j. case r ! j of Num x \<Rightarrow> x | _ \<Rightarrow> the (ss ! j))
       (filter (\<lambda>j. ss ! j \<noteq> None) [0..<length ss])"
proof (induction ss r rule: impute_row.induct)
  case (1 s ss c cs)
  have upt: "[0..<Suc (length ss)] = 0 # map Suc [0..<length ss]"
    by (simp add: upt_conv_Cons map_Suc_upt del: upt_Suc)
  from 1 show ?case
    unfolding length_Cons upt
    by (cases s) (auto simp: filter_map comp_def split: cell.splits)
qed auto


text \<open>
  Claim C1. In every run of \<^verbatim>\<open>classify\<close> that returns, the imputer has one
  parameter for every feature column, computed from the train rows of the split alone:
  the sum of the column's train entries that are not missing divided by their number,
  and no value when every train entry of the column is missing. The estimator is fitted
  on the train matrix and predicts on the test matrix after both were filled with these
  same parameters: in every row, a column without a parameter is dropped, a missing cell
  takes the parameter of its column, and any other cell keeps its number. The parameters
  do not depend on the test rows: with the same train rows and any other test rows the
  fitted parameters and the filled train matrix are the same.
\<close>

theorem classify_imputer_fit_on_train:
  assumes run: "classify sk s model dataset_id dataset = Inr (s', predictions, actual)"
  shows "\<exists>X_train X_test y_train statistics filled_train filled_test.
     classify_split sk (ambient s) dataset_id dataset =
       Inr ((X_train, X_test, y_train, actual), ambient s) \<and>
     model_fit sk s model filled_train y_train = Inr s' \<and>
     model_predict sk s' model filled_test = Inr predictions \<and>
     X_train \<noteq> [] \<and> length statistics = length (hd X_train) \<and>
     (\<forall>j<length statistics.
        statistics ! j =
          (if list_all (\<lambda>r. r ! j = NaN) X_train then None
           else Some (sum_list (map (\<lambda>r. case r ! j of Num x \<Rightarrow> x | _ \<Rightarrow> 0) X_train)
                      / of_nat (length (filter (\<lambda>r. r ! j \<noteq> NaN) X_train))))) \<and>
     length filled_train = length X_train \<and> length filled_test = length X_test \<and>
     (\<forall>i<length X_train.
        filled_train ! i =
          map (\<lambda>j. case X_train ! i ! j of Num x \<Rightarrow> x | _ \<Rightarrow> the (statistics ! j))
            (filter (\<lambda>j. statistics ! j \<noteq> None) [0..<length statistics])) \<and>
     (\<forall>i<length X_test.
        filled_test ! i =
          map (\<lambda>j. case X_test ! i ! j of Num x \<Rightarrow> x | _ \<Rightarrow> the (statistics ! j))
            (filter (\<lambda>j. statistics ! j \<noteq> None) [0..<length statistics])) \<and>
     (\<forall>X_test' res. classify_impute X_train X_test' = Inr res \<longrightarrow>
        fst res = statistics \<and> fst (snd res) = filled_train)"
proof -
  from classify_Inr[OF run] obtain X_train X_test y_train statistics
    where split: "classify_split sk (ambient s) dataset_id dataset =
        Inr ((X_train, X_test, y_train, actual), ambient s)"
      and imp: "classify_impute X_train X_test =
        Inr (statistics, map (impute_row statistics) X_train, map (impute_row statistics) X_test)"
      and fit: "model_fit sk s model (map (impute_row statistics) X_train) y_train = Inr s'"
      and pred: "model_predict sk s' model (map (impute_row statistics) X_test) = Inr predictions"
    by blast
  let ?A = "map (impute_row statistics) X_train" and ?B = "map (impute_row statistics) X_test"
  note facts = classify_impute_Inr[OF imp]
  note vtrain = validate_input_Inr[OF facts(4)]
  note vtest = validate_input_Inr[OF facts(5)]
  have stats_len: "length statistics = length (hd X_train)" by (rule vtrain(2))
  have stats: "statistics ! j =
          (if list_all (\<lambda>r. r ! j = NaN) X_train then None
           else Some (sum_list (map (\<lambda>r. case r ! j of Num x \<Rightarrow> x | _ \<Rightarrow> 0) X_train)
                      / of_nat (length (filter (\<lambda>r. r ! j \<noteq> NaN) X_train))))"
    if j: "j < length statistics" for j
  proof -
    have "\<not> is_Str (r ! j)" if "r \<in> set X_train" for r
      using vtrain(4)[OF that] vtrain(5)[OF that, of "r ! j"] j by simp
    from column_mean_explicit[of X_train j, OF this] j stats_len show ?thesis
      by (subst facts(1)) simp
  qed
  have train_rows: "?A ! i =
          map (\<lambda>j. case X_train ! i ! j of Num x \<Rightarrow> x | _ \<Rightarrow> the (statistics ! j))
            (filter (\<lambda>j. statistics ! j \<noteq> None) [0..<length statistics])"
    if "i < length X_train" for i
    using that vtrain(4)[of "X_train ! i"] by (simp add: impute_row_explicit)
  have test_rows: "?B ! i =
          map (\<lambda>j. case X_test ! i ! j of Num x \<Rightarrow> x | _ \<Rightarrow> the (statistics ! j))
            (filter (\<lambda>j. statistics ! j \<noteq> None) [0..<length statistics])"
    if "i < length X_test" for i
    using that vtest(4)[of "X_test ! i"] by (simp add: impute_row_explicit)
  have indep: "fst res = statistics \<and> fst (snd res) = ?A"
    if "classify_impute X_train X_test' = Inr res" for X_test' res
  proof -
    obtain s' A' B' where res: "res = (s', A', B')" by (cases res) auto
    from classify_impute_Inr(1,2)[OF that[unfolded res]] facts(1)
    show ?thesis by (simp add: res)
  qed
  show ?thesis
    apply (rule exI[of _ X_train], rule exI[of _ X_test], rule exI[of _ y_train],
        rule exI[of _ statistics], rule exI[of _ ?A], rule exI[of _ ?B])
    using split fit pred vtrain(1) stats_len stats train_rows test_rows indep
    by simp
qed

theorem classify_imputer_fit_on_train_witness:
  "classify ex_sk ex_heap 0 ''cervical_cancer'' ex_frame =
     Inr (ex_heap\<lparr>objects := (objects ex_heap)(0 \<mapsto> \<lparr>params = GaussianNB, fitted = Some (Num 1)\<rparr>)\<rparr>,
          [Scalar (Num 1)], [PList [Scalar (Num 0)]]) \<and>
   (\<exists>y_train s'.
      classify_split ex_sk (ambient ex_heap) ''cervical_cancer'' ex_frame =
        Inr (([[Num 40, Num 1], [Num 30, NaN]], [[Num 50, Num 3]], y_train,
              [PList [Scalar (Num 0)]]), ambient ex_heap) \<and>
      model_fit ex_sk ex_heap 0 [[40, 1], [30, 1]] y_train = Inr s' \<and>
      model_predict ex_sk s' 0 [[50, 3]] = Inr [Scalar (Num 1)])"
proof -
  from classify_imputer_fit_on_train[OF ex_classify]
  obtain X_train X_test y_train statistics filled_train filled_test where
    split: "classify_split ex_sk (ambient ex_heap) ''cervical_cancer'' ex_frame =
        Inr ((X_train, X_test, y_train, [PList [Scalar (Num 0)]]), ambient ex_heap)"
    and fit: "model_fit ex_sk ex_heap 0 filled_train y_train =
        Inr (ex_heap\<lparr>objects := (objects ex_heap)(0 \<mapsto> \<lparr>params = GaussianNB, fitted = Some (Num 1)\<rparr>)\<rparr>)"
    and pred: "model_predict ex_sk
        (ex_heap\<lparr>objects := (objects ex_heap)(0 \<mapsto> \<lparr>params = GaussianNB, fitted = Some (Num 1)\<rparr>)\<rparr>)
        0 filled_test = Inr [Scalar (Num 1)]"
    and slen: "length statistics = length (hd X_train)"
    and stats: "\<forall>j<length statistics.
        statistics ! j =
          (if list_all (\<lambda>r. r ! j = NaN) X_train then None
           else Some (sum_list (map (\<lambda>r. case r ! j of Num x \<Rightarrow> x | _ \<Rightarrow> 0) X_train)
                      / of_nat (length (filter (\<lambda>r. r ! j \<noteq> NaN) X_train))))"
    and lens: "length filled_train = length X_train" "length filled_test = length X_test"
    and train_rows: "\<forall>i<length X_train.
        filled_train ! i =
          map (\<lambda>j. case X_train ! i ! j of Num x \<Rightarrow> x | _ \<Rightarrow> the (statistics ! j))
            (filter (\<lambda>j. statistics ! j \<noteq> None) [0..<length statistics])"
    and test_rows: "\<forall>i<length X_test.
        filled_test ! i =
          map (\<lambda>j. case X_test ! i ! j of Num x \<Rightarrow> x | _ \<Rightarrow> the (statistics ! j))
            (filter (\<lambda>j. statistics ! j \<noteq> None) [0..<length statistics])"
    by blast
  from split have X: "X_train = [[Num 40, Num 1], [Num 30, NaN]]" "X_test = [[Num 50, Num 3]]"
    by (simp_all add: ex_split)
  from slen X have s2: "length statistics = 2" by simp
  from stats[rule_format, of 0] stats[rule_format, of 1] s2
  have s01: "statistics ! 0 = Some 35" "statistics ! 1 = Some 1"
    by (simp_all add: X)
  from s2 s01 have st: "statistics = [Some 35, Some 1]"
    by (cases statistics; cases "tl statistics") auto
  have u2: "[0..<2] = [0, 1]" by (simp add: upt_rec)
  from train_rows[rule_format, of 0] train_rows[rule_format, of 1] lens(1)
  have ft: "filled_train = [[40, 1], [30, 1]]"
    unfolding X st by (cases filled_train; cases "tl filled_train") (auto simp: u2)
  from test_rows[rule_format, of 0] lens(2)
  have fe: "filled_test = [[50, 3]]"
    unfolding X st by (cases filled_test) (auto simp: u2)
  from split fit pred show ?thesis
    unfolding X ft fe using ex_classify by blast
qed



lemma to_X_y_wrapped:
  assumes other: "dataset_id \<noteq> ''breast_cancer''"
    and wf: "wf_frame d"
    and xy: "to_X_y dataset_id d = Inr (X, y)"
    and i: "i < length (rows d)"
    and ne: "X ! i \<noteq> []"
  shows "y ! i = PList [Scalar (label_code dataset_id (last (rows d ! i)))]"
proof -
  let ?n = "length (columns d)"
  let ?r = "rows d ! i"
  from wf i have len: "length ?r = ?n"
    by (simp add: wf_frame_def list_all_length)
  show ?thesis
  proof (cases "dataset_id = ''hyperthyroidism''")
    case True
    with xy have n2: "2 \<le> ?n"
      by (auto simp: to_X_y_def hyper_dataset_def Let_def split: if_splits)
    with len have "?r \<noteq> []" by auto
    with len have last: "?r ! (?n - 1) = last ?r" by (simp add: last_conv_nth)
    from True xy n2 i last show ?thesis
      by (auto simp: to_X_y_def hyper_dataset_def Let_def last_column_matrix_def label_code_def)
  next
    case False
    with xy other i ne have "?r \<noteq> []"
      by (auto simp: to_X_y_def liver_dataset_def features_but_last_def split: if_splits)
    then have "drop (length ?r - 1) (map f ?r) = [f (last ?r)]" for f :: "cell \<Rightarrow> cell"
      by (cases ?r rule: rev_cases) auto
    from this[of id] this[of "replace_dict liver_codes"] False xy other i show ?thesis
      by (auto simp: to_X_y_def liver_dataset_def last_column_matrix_def label_code_def
          split: if_splits)
  qed
qed

lemma to_X_y_bare:
  assumes "to_X_y ''breast_cancer'' d = Inr (X, y)"
  shows "\<exists>labels. getitem d (Num 1) = Inr labels \<and> y = map Scalar labels"
  using assms by (auto simp: to_X_y_def split: sum.splits)

text \<open>
  Claim C10. In every run of \<^verbatim>\<open>classify\<close> that returns (on a well-formed frame, with a
  generator that yields permutations), the predictions are bare label values. For every
  dataset identifier except \<^verbatim>\<open>breast_cancer\<close>, each element of the actual labels is a
  one-element list that wraps the label of its test row, the last cell of the row as the
  branch encodes it; for \<^verbatim>\<open>breast_cancer\<close> each element is the bare entry of the
  column labelled 1 at its test row.
\<close>

theorem classify_actual_wrapped:
  assumes perm: "is_permutation (permutation sk)"
    and wf: "wf_frame dataset"
    and run: "classify sk h model dataset_id dataset = Inr (h', predictions, actual)"
  shows "(\<exists>p. predictions = map Scalar p) \<and>
    (\<exists>test. distinct test \<and> set test \<subseteq> {0..<length (rows dataset)} \<and>
       length test = (length (rows dataset) + 4) div 5 \<and>
       (dataset_id \<noteq> ''breast_cancer'' \<longrightarrow>
          actual = map (\<lambda>i. PList [Scalar (label_code dataset_id (last (rows dataset ! i)))]) test) \<and>
       (dataset_id = ''breast_cancer'' \<longrightarrow>
          (\<exists>labels. getitem dataset (Num 1) = Inr labels \<and>
             actual = map (\<lambda>i. Scalar (labels ! i)) test)))"
proof -
  let ?n = "length (rows dataset)"
  from classify_Inr[OF run] obtain X_train X_test y_train statistics
    where split: "classify_split sk (ambient h) dataset_id dataset =
        Inr ((X_train, X_test, y_train, actual), ambient h)"
      and imp: "classify_impute X_train X_test =
        Inr (statistics, map (impute_row statistics) X_train, map (impute_row statistics) X_test)"
      and pred: "model_predict sk h' model (map (impute_row statistics) X_test) = Inr predictions"
    by blast
  from pred have bare: "\<exists>p. predictions = map Scalar p"
    by (auto simp: model_predict_def split: option.splits sum.splits)
  from classify_split_Inr[OF split] obtain X y train test
    where xy: "to_X_y dataset_id dataset = Inr (X, y)"
      and si: "split_indices sk (1 / 5) (Some 0) ?n (ambient h) = Inr ((train, test), ambient h)"
      and Xte: "X_test = select X test" and act: "actual = select y test"
    by blast
  have whole: "test @ train = permutation sk 0 ?n"
    by (rule split_indices_parts(1)[OF perm si])
  have ltest: "length test = (?n + 4) div 5"
    by (rule split_indices_parts(2)[OF perm si])
  from perm have "distinct (test @ train)" "set (test @ train) = {0..<?n}"
    unfolding whole by (simp_all add: is_permutation_def)
  then have dist: "distinct test" and range: "set test \<subseteq> {0..<?n}" by auto
  have valid: "validate_input X_test = Inr (length statistics)"
    by (rule classify_impute_Inr(5)[OF imp])
  have wrapped: "actual = map (\<lambda>i. PList [Scalar (label_code dataset_id (last (rows dataset ! i)))]) test"
    if other: "dataset_id \<noteq> ''breast_cancer''"
  proof -
    have "y ! i = PList [Scalar (label_code dataset_id (last (rows dataset ! i)))]"
      if "i \<in> set test" for i
    proof -
      from that range have i: "i < ?n" by auto
      from that have "X ! i \<in> set X_test" by (simp add: Xte select_def)
      with validate_input_Inr(3,4)[OF valid] have "X ! i \<noteq> []" by fastforce
      with to_X_y_wrapped[OF other wf xy i] show ?thesis .
    qed
    then show ?thesis by (simp add: act select_def)
  qed
  have unwrapped: "\<exists>labels. getitem dataset (Num 1) = Inr labels \<and>
      actual = map (\<lambda>i. Scalar (labels ! i)) test"
    if breast: "dataset_id = ''breast_cancer''"
  proof -
    from to_X_y_bare[OF xy[unfolded breast]] obtain labels
      where get: "getitem dataset (Num 1) = Inr labels" and y: "y = map Scalar labels"
      by blast
    from to_X_y_lengths(2)[OF xy] y have "length labels = ?n" by simp
    with range have "select y test = map (\<lambda>i. Scalar (labels ! i)) test"
      by (auto simp: select_def y)
    with get act show ?thesis by blast
  qed
  from bare dist range ltest wrapped unwrapped show ?thesis by blast
qed

lemma ex_breast_classify: "classify ex_sk ex_heap 0 ''breast_cancer'' ex_breast_frame =
   Inr (ex_heap\<lparr>objects := (objects ex_heap)(0 \<mapsto> \<lparr>params = GaussianNB, fitted = Some (Str ''B'')\<rparr>)\<rparr>,
        [Scalar (Str ''B'')], [Scalar (Str ''M'')])"
proof -
  have xy: "to_X_y ''breast_cancer'' ex_breast_frame =
     Inr ([[Num 1, Num 17], [Num 2, Num 12], [Num 3, Num 20]],
          [Scalar (Str ''M''), Scalar (Str ''B''), Scalar (Str ''M'')])"
    by (simp add: to_X_y_def drop_columns_def getitem_def col_def ex_breast_frame_def)
  have split: "classify_split ex_sk g ''breast_cancer'' ex_breast_frame =
     Inr (([[Num 2, Num 12], [Num 1, Num 17]], [[Num 3, Num 20]],
           [Scalar (Str ''B''), Scalar (Str ''M'')], [Scalar (Str ''M'')]), g)" for g
    unfolding classify_split_def xy train_test_split_def split_indices_fifth
    by (simp add: ex_permutation select_def upt3)
  have imp: "classify_impute [[Num 2, Num 12], [Num 1, Num 17]] [[Num 3, Num 20]] =
     Inr ([Some (3 / 2), Some (29 / 2)], [[2, 12], [1, 17]], [[3, 20]])"
    by (simp add: classify_impute_def imputer_fit_def imputer_transform_def
        validate_input_def is_Str_def column_mean_def upt_rec)
  show ?thesis
    unfolding classify_def split
    by (simp add: imp model_fit_def model_predict_def ex_heap_def ex_sk_def ex_fit_def)
qed

theorem classify_actual_wrapped_witness:
  "is_permutation (permutation ex_sk) \<and> wf_frame ex_frame \<and> wf_frame ex_breast_frame \<and>
   classify ex_sk ex_heap 0 ''cervical_cancer'' ex_frame =
     Inr (ex_heap\<lparr>objects := (objects ex_heap)(0 \<mapsto> \<lparr>params = GaussianNB, fitted = Some (Num 1)\<rparr>)\<rparr>,
          [Scalar (Num 1)], [PList [Scalar (Num 0)]]) \<and>
   classify ex_sk ex_heap 0 ''breast_cancer'' ex_breast_frame =
     Inr (ex_heap\<lparr>objects := (objects ex_heap)(0 \<mapsto> \<lparr>params = GaussianNB, fitted = Some (Str ''B'')\<rparr>)\<rparr>,
          [Scalar (Str ''B'')], [Scalar (Str ''M'')]) \<and>
   (\<exists>test. length test = 1 \<and>
      [PList [Scalar (Num 0)]] =
        map (\<lambda>i. PList [Scalar (label_code ''cervical_cancer'' (last (rows ex_frame ! i)))]) test) \<and>
   (\<exists>test labels. length test = 1 \<and> getitem ex_breast_frame (Num 1) = Inr labels \<and>
      [Scalar (Str ''M'')] = map (\<lambda>i. Scalar (labels ! i)) test)"
proof -
  have wf1: "wf_frame ex_frame" by (simp add: wf_frame_def ex_frame_def)
  have wf2: "wf_frame ex_breast_frame" by (simp add: wf_frame_def ex_breast_frame_def)
  have n1: "(length (rows ex_frame) + 4) div 5 = 1" by (simp add: ex_frame_def)
  have n2: "(length (rows ex_breast_frame) + 4) div 5 = 1" by (simp add: ex_breast_frame_def)
  from classify_actual_wrapped[OF ex_sk_permutation wf1 ex_classify]
  have a: "\<exists>test. length test = 1 \<and>
      [PList [Scalar (Num 0)]] =
        map (\<lambda>i. PList [Scalar (label_code ''cervical_cancer'' (last (rows ex_frame ! i)))]) test"
    unfolding n1 by auto
  from classify_actual_wrapped[OF ex_sk_permutation wf2 ex_breast_classify]
  have b: "\<exists>test labels. length test = 1 \<and> getitem ex_breast_frame (Num 1) = Inr labels \<and>
      [Scalar (Str ''M'')] = map (\<lambda>i. Scalar (labels ! i)) test"
    unfolding n2 by auto
  from a b wf1 wf2 ex_sk_permutation ex_classify ex_breast_classify show ?thesis by blast
qed

section \<open>Properties of the evaluation\<close>

lemma floor_rat_numeral: "\<lfloor>(numeral a :: rat) / numeral b\<rfloor> = numeral a div numeral b"
  by (metis floor_divide_of_int_eq of_int_numeral)

lemma two_decimals_of_int: "two_decimals (of_int k / 100)"
  by (simp add: two_decimals_def)

lemma round2_rounded: "rounded2 (round2 up x) x"
proof -
  define f where "f = \<lfloor>x * 100\<rfloor>"
  define d where "d = x * 100 - of_int f"
  have d0: "0 \<le> d" and d1: "d < 1" unfolding d_def f_def by linarith+
  have x: "x = (of_int f + d) / 100" unfolding d_def by simp
  have a: "\<bar>of_int f / 100 - x\<bar> \<le> 1 / 200" if "d \<le> 1 / 2"
    using that d0 unfolding x by (simp add: field_simps abs_if)
  have b: "\<bar>of_int (f + 1) / 100 - x\<bar> \<le> 1 / 200" if "1 / 2 \<le> d"
    using that d1 unfolding x by (simp add: field_simps abs_if)
  show ?thesis
    unfolding rounded2_def round2_def Let_def f_def[symmetric] d_def[symmetric]
    using a b by (auto simp: two_decimals_of_int simp del: of_int_add)
qed

lemma round2_zero: "round2 up 0 = 0"
  by (simp add: round2_def)

lemma positions_zip:
  assumes len: "length t = length p"
  shows "positions R t p = length (filter (\<lambda>(a, b). R a b) (zip t p))"
proof -
  have "positions R t p = card {i. i < length t \<and> R (t ! i) (p ! i)}"
    unfolding positions_def length_filter_conv_card
    by (rule arg_cong[where f = card]) auto
  also have "\<dots> = length (filter (\<lambda>(a, b). R a b) (zip t p))"
    unfolding length_filter_conv_card using len
    by (intro arg_cong[where f = card]) auto
  finally show ?thesis .
qed

lemma count_list_zip_right:
  "length t = length p \<Longrightarrow> count_list p l = length (filter (\<lambda>(a, b). b = l) (zip t p))"
  by (induction t p rule: list_induct2) auto

lemma count_list_zip_left:
  "length t = length p \<Longrightarrow> count_list t l = length (filter (\<lambda>(a, b). a = l) (zip t p))"
  by (induction t p rule: list_induct2) auto

lemma split_predicted:
  "length (filter (\<lambda>(a, b). b = l) zs) =
     length (filter (\<lambda>(a, b). a = l \<and> b = l) zs) + length (filter (\<lambda>(a, b). a \<noteq> l \<and> b = l) zs)"
  by (induction zs) auto

lemma split_actual:
  "length (filter (\<lambda>(a, b). a = l) zs) =
     length (filter (\<lambda>(a, b). a = l \<and> b = l) zs) + length (filter (\<lambda>(a, b). a = l \<and> b \<noteq> l) zs)"
  by (induction zs) auto

lemma precision_of_spec:
  "length t = length p \<Longrightarrow> precision_of l t p = spec_precision l t p"
  by (simp add: precision_of_def spec_precision_def ratio_def true_positives_def
      positions_zip count_list_zip_right[of t p])

lemma recall_of_spec:
  "length t = length p \<Longrightarrow> recall_of l t p = spec_recall l t p"
  by (simp add: recall_of_def spec_recall_def ratio_def true_positives_def
      positions_zip count_list_zip_left[of t p])

lemma f1_algebra:
  fixes tp fp fn :: nat
  shows "(let pr = ratio tp (tp + fp); rc = ratio tp (tp + fn)
          in if pr + rc = 0 then 0 else 2 * pr * rc / (pr + rc)) =
         (if 2 * tp + fp + fn = 0 then 0 else of_nat (2 * tp) / of_nat (2 * tp + fp + fn))"
proof (cases "tp = 0")
  case True
  then show ?thesis by (simp add: ratio_def)
next
  case False
  define a b c :: rat where "a = of_nat tp" and "b = of_nat (tp + fp)" and "c = of_nat (tp + fn)"
  from False have pos: "0 < a" "0 < b" "0 < c" by (simp_all add: a_def b_def c_def)
  then have sum: "a / b + a / c \<noteq> 0"
    by (metis add_pos_pos divide_pos_pos less_irrefl)
  from pos have bc: "b + c \<noteq> 0" by simp
  have "a / b + a / c = a * (b + c) / (b * c)"
    using pos by (simp add: field_simps)
  then have h: "2 * (a / b) * (a / c) = (2 * a / (b + c)) * (a / b + a / c)"
    using bc by simp
  have "2 * (a / b) * (a / c) / (a / b + a / c) = 2 * a / (b + c)"
    unfolding h using sum by (rule nonzero_mult_div_cancel_right)
  note main = this
  from False have r1: "ratio tp (tp + fp) = a / b" and r2: "ratio tp (tp + fn) = a / c"
    by (simp_all add: ratio_def a_def b_def c_def)
  have lhs: "(let pr = ratio tp (tp + fp); rc = ratio tp (tp + fn)
          in if pr + rc = 0 then 0 else 2 * pr * rc / (pr + rc)) =
      2 * (a / b) * (a / c) / (a / b + a / c)"
    unfolding Let_def r1 r2 using sum by simp
  have e: "of_nat (2 * tp + fp + fn) = b + c" "of_nat (2 * tp) = 2 * a"
    by (simp_all add: a_def b_def c_def)
  from False have rhs: "(if 2 * tp + fp + fn = 0 then 0
       else of_nat (2 * tp) / of_nat (2 * tp + fp + fn)) = 2 * a / (b + c)"
    unfolding e by simp
  show ?thesis unfolding lhs rhs by (rule main)
qed

lemma f1_of_spec:
  assumes len: "length t = length p"
  shows "f1_of l t p = spec_f1 l t p"
proof -
  let ?zs = "zip t p"
  let ?tp = "length (filter (\<lambda>(a, b). a = l \<and> b = l) ?zs)"
  let ?fp = "length (filter (\<lambda>(a, b). a \<noteq> l \<and> b = l) ?zs)"
  let ?fn = "length (filter (\<lambda>(a, b). a = l \<and> b \<noteq> l) ?zs)"
  have cp: "count_list p l = ?tp + ?fp"
    unfolding count_list_zip_right[OF len] by (rule split_predicted)
  have ct: "count_list t l = ?tp + ?fn"
    unfolding count_list_zip_left[OF len] by (rule split_actual)
  have "f1_of l t p =
      (let pr = ratio ?tp (?tp + ?fp); rc = ratio ?tp (?tp + ?fn)
       in if pr + rc = 0 then 0 else 2 * pr * rc / (pr + rc))"
    by (simp only: f1_of_def precision_of_def recall_of_def true_positives_def cp ct)
  also have "\<dots> = (if 2 * ?tp + ?fp + ?fn = 0 then 0
                     else of_nat (2 * ?tp) / of_nat (2 * ?tp + ?fp + ?fn))"
    by (rule f1_algebra)
  also have "\<dots> = spec_f1 l t p"
    by (simp only: spec_f1_def positions_zip[OF len] Let_def)
  finally show ?thesis .
qed

lemma macro_score_spec:
  assumes "\<And>c. metric c t p = metric' c t p"
  shows "macro_score metric t p = spec_macro metric' t p"
proof -
  have "sum_list (map (\<lambda>l. metric l t p) (remdups (t @ p))) = (\<Sum>c\<in>set t \<union> set p. metric c t p)"
    by (simp add: sum_list_distinct_conv_sum_set)
  then show ?thesis
    by (simp add: macro_score_def spec_macro_def present_labels_def Let_def assms
        length_remdups_card_conv)
qed

lemma accuracy_score_spec:
  "length t = length p \<Longrightarrow>
   accuracy_score t p = (if t = [] then None else Some (spec_accuracy t p))"
  by (simp add: accuracy_score_def spec_accuracy_def positions_zip)

lemma scalar_of_Some: "scalar_of y \<noteq> None \<Longrightarrow> Scalar (the (scalar_of y)) = y"
  by (cases y) auto

lemma single_of_Some: "single_of y \<noteq> None \<Longrightarrow> PList [Scalar (the (single_of y))] = y"
  by (induction y rule: single_of.induct) auto

lemma column_or_1d_Inr:
  assumes "column_or_1d ys = Inr cs"
  shows "length cs = length ys"
    and "ys = map Scalar cs \<or> ys = map (\<lambda>c. PList [Scalar c]) cs"
proof -
  from assms show "length cs = length ys"
    by (auto simp: column_or_1d_def split: if_splits)
  from assms consider
      (scalar) "list_all (\<lambda>y. scalar_of y \<noteq> None) ys" "cs = map (\<lambda>y. the (scalar_of y)) ys"
    | (single) "list_all (\<lambda>y. single_of y \<noteq> None) ys" "cs = map (\<lambda>y. the (single_of y)) ys"
    by (auto simp: column_or_1d_def split: if_splits)
  then show "ys = map Scalar cs \<or> ys = map (\<lambda>c. PList [Scalar c]) cs"
  proof cases
    case scalar
    then have "map Scalar cs = ys"
      by (simp add: list_all_iff scalar_of_Some map_idI)
    then show ?thesis by simp
  next
    case single
    then have "map (\<lambda>c. PList [Scalar c]) cs = ys"
      by (simp add: list_all_iff single_of_Some map_idI)
    then show ?thesis by simp
  qed
qed

lemma check_targets_Inr:
  assumes "check_targets gold predictions = Inr (t, p)"
  shows "length t = length p"
    and "gold = map Scalar t \<or> gold = map (\<lambda>c. PList [Scalar c]) t"
    and "predictions = map Scalar p \<or> predictions = map (\<lambda>c. PList [Scalar c]) p"
proof -
  from assms have len: "length gold = length predictions"
    and t: "column_or_1d gold = Inr t" and p: "column_or_1d predictions = Inr p"
    by (auto simp: check_targets_def split: if_splits sum.splits)
  from len column_or_1d_Inr(1)[OF t] column_or_1d_Inr(1)[OF p]
  show "length t = length p" by simp
  show "gold = map Scalar t \<or> gold = map (\<lambda>c. PList [Scalar c]) t"
    by (rule column_or_1d_Inr(2)[OF t])
  show "predictions = map Scalar p \<or> predictions = map (\<lambda>c. PList [Scalar c]) p"
    by (rule column_or_1d_Inr(2)[OF p])
qed

lemma fold_labels_key:
  "l \<in> set labels \<Longrightarrow>
     foldl (\<lambda>ev k. ev(k \<mapsto> Scores (g k))) init labels l = Some (Scores (g l))"
  by (induction labels arbitrary: init rule: rev_induct) auto

lemma fold_labels_other:
  "l \<notin> set labels \<Longrightarrow> foldl (\<lambda>ev k. ev(k \<mapsto> Scores (g k))) init labels l = init l"
  by (induction labels arbitrary: init rule: rev_induct) auto

lemma evaluate_Inr:
  assumes "evaluate ties labels gold predictions = Inr ev"
  shows "\<exists>t p. check_targets gold predictions = Inr (t, p) \<and>
     ev = foldl (\<lambda>ev k. ev(k \<mapsto> Scores (label_scores ties t p k)))
            [Str ''accuracy'' \<mapsto> Value (accuracy_score t p)] labels"
  using assms by (auto simp: evaluate_def split: sum.splits if_splits)

lemma evaluate_returns:
  assumes "check_targets gold predictions = Inr (t, p)" "same_kind (labels @ t @ p)"
  shows "evaluate ties labels gold predictions =
     Inr (foldl (\<lambda>ev k. ev(k \<mapsto> Scores (label_scores ties t p k)))
            [Str ''accuracy'' \<mapsto> Value (accuracy_score t p)] labels)"
  using assms by (simp add: evaluate_def)

lemma present_labels_card: "length (present_labels t p) = card (set t \<union> set p)"
  by (simp add: present_labels_def length_remdups_card_conv)

lemma present_labels_set: "set (present_labels t p) = set t \<union> set p"
  by (simp add: present_labels_def)

lemma macro_scores_spec:
  assumes len: "length t = length p"
  shows "rounded2 (precision (macro_scores ties t p)) (spec_macro spec_precision t p)"
    and "rounded2 (recall (macro_scores ties t p)) (spec_macro spec_recall t p)"
    and "rounded2 (f1 (macro_scores ties t p)) (spec_macro spec_f1 t p)"
proof -
  have "macro_score precision_of t p = spec_macro spec_precision t p"
    by (rule macro_score_spec) (rule precision_of_spec[OF len])
  then show "rounded2 (precision (macro_scores ties t p)) (spec_macro spec_precision t p)"
    using round2_rounded[of "ties Precision Macro t p" "macro_score precision_of t p"]
    by (simp add: macro_scores_def)
  have "macro_score recall_of t p = spec_macro spec_recall t p"
    by (rule macro_score_spec) (rule recall_of_spec[OF len])
  then show "rounded2 (recall (macro_scores ties t p)) (spec_macro spec_recall t p)"
    using round2_rounded[of "ties Recall Macro t p" "macro_score recall_of t p"]
    by (simp add: macro_scores_def)
  have "macro_score f1_of t p = spec_macro spec_f1 t p"
    by (rule macro_score_spec) (rule f1_of_spec[OF len])
  then show "rounded2 (f1 (macro_scores ties t p)) (spec_macro spec_f1 t p)"
    using round2_rounded[of "ties F1 Macro t p" "macro_score f1_of t p"]
    by (simp add: macro_scores_def)
qed

lemma label_scores_macro:
  assumes "2 < card (set t \<union> set p) \<or> (card (set t \<union> set p) = 2 \<and> l \<notin> set t \<union> set p)"
  shows "label_scores ties t p l = macro_scores ties t p"
  using assms
  by (auto simp: label_scores_def binary_score_def present_labels_card present_labels_set)

lemma label_scores_binary:
  assumes "\<not> (2 < card (set t \<union> set p) \<or> (card (set t \<union> set p) = 2 \<and> l \<notin> set t \<union> set p))"
  shows "label_scores ties t p l =
     \<lparr>precision = round2 (ties Precision (Binary l) t p) (precision_of l t p),
      recall = round2 (ties Recall (Binary l) t p) (recall_of l t p),
      f1 = round2 (ties F1 (Binary l) t p) (f1_of l t p)\<rparr>"
proof -
  from assms have "\<not> 2 < length (present_labels t p)"
    and "\<not> (l \<notin> set (present_labels t p) \<and> 2 \<le> length (present_labels t p))"
    unfolding present_labels_card present_labels_set by auto
  then have "binary_score metric t p l = Inr (metric l t p)" for metric
    by (simp add: binary_score_def Let_def)
  then show ?thesis
    by (simp add: label_scores_def)
qed

lemma label_scores_spec:
  assumes len: "length t = length p"
  shows "if 2 < card (set t \<union> set p) \<or> (card (set t \<union> set p) = 2 \<and> l \<notin> set t \<union> set p)
         then rounded2 (precision (label_scores ties t p l)) (spec_macro spec_precision t p) \<and>
              rounded2 (recall (label_scores ties t p l)) (spec_macro spec_recall t p) \<and>
              rounded2 (f1 (label_scores ties t p l)) (spec_macro spec_f1 t p)
         else rounded2 (precision (label_scores ties t p l)) (spec_precision l t p) \<and>
              rounded2 (recall (label_scores ties t p l)) (spec_recall l t p) \<and>
              rounded2 (f1 (label_scores ties t p l)) (spec_f1 l t p)"
proof (cases "2 < card (set t \<union> set p) \<or> (card (set t \<union> set p) = 2 \<and> l \<notin> set t \<union> set p)")
  case True
  show ?thesis
    unfolding if_P[OF True] label_scores_macro[OF True]
    using macro_scores_spec[OF len] by simp
next
  case False
  show ?thesis
    unfolding if_not_P[OF False] label_scores_binary[OF False]
    by (simp add: precision_of_spec[OF len] recall_of_spec[OF len] f1_of_spec[OF len]
        round2_rounded)
qed

text \<open>
  Claim C2, as the code has it. When \<^verbatim>\<open>evaluate\<close> returns, the gold labels and the
  predictions are two label sequences \<open>t\<close> and \<open>p\<close> of one length (each given bare or as
  one-element lists), and the mapping holds under every label a triple of scores rounded
  to two decimal places: each has at most two decimal places and lies within 1/200 of the
  metric it reports. The metrics are the precision, the recall and the F1 of the label
  taken as the positive class; when \<open>t\<close> and \<open>p\<close> hold more than two labels, or two labels
  of which the label is none, they are the macro averages of the three metrics over the
  labels that occur. The overall accuracy is stored as the share of positions where
  \<open>t\<close> and \<open>p\<close> agree, without rounding.
\<close>

theorem evaluate_rounds_label_scores:
  assumes "evaluate ties labels gold predictions = Inr ev"
  shows "\<exists>t p. check_targets gold predictions = Inr (t, p) \<and> length t = length p \<and>
     (gold = map Scalar t \<or> gold = map (\<lambda>c. PList [Scalar c]) t) \<and>
     (predictions = map Scalar p \<or> predictions = map (\<lambda>c. PList [Scalar c]) p) \<and>
     (\<forall>l\<in>set labels. \<exists>s. ev l = Some (Scores s) \<and>
        (if 2 < card (set t \<union> set p) \<or> (card (set t \<union> set p) = 2 \<and> l \<notin> set t \<union> set p)
         then rounded2 (precision s) (spec_macro spec_precision t p) \<and>
              rounded2 (recall s) (spec_macro spec_recall t p) \<and>
              rounded2 (f1 s) (spec_macro spec_f1 t p)
         else rounded2 (precision s) (spec_precision l t p) \<and>
              rounded2 (recall s) (spec_recall l t p) \<and>
              rounded2 (f1 s) (spec_f1 l t p))) \<and>
     (Str ''accuracy'' \<notin> set labels \<longrightarrow>
        ev (Str ''accuracy'') = Some (Value (if t = [] then None else Some (spec_accuracy t p))))"
proof -
  from evaluate_Inr[OF assms] obtain t p
    where ct: "check_targets gold predictions = Inr (t, p)"
      and ev: "ev = foldl (\<lambda>ev k. ev(k \<mapsto> Scores (label_scores ties t p k)))
            [Str ''accuracy'' \<mapsto> Value (accuracy_score t p)] labels"
    by blast
  note len = check_targets_Inr(1)[OF ct]
  have key: "ev l = Some (Scores (label_scores ties t p l))" if "l \<in> set labels" for l
    unfolding ev by (rule fold_labels_key[OF that])
  have labels: "\<forall>l\<in>set labels. \<exists>s. ev l = Some (Scores s) \<and>
        (if 2 < card (set t \<union> set p) \<or> (card (set t \<union> set p) = 2 \<and> l \<notin> set t \<union> set p)
         then rounded2 (precision s) (spec_macro spec_precision t p) \<and>
              rounded2 (recall s) (spec_macro spec_recall t p) \<and>
              rounded2 (f1 s) (spec_macro spec_f1 t p)
         else rounded2 (precision s) (spec_precision l t p) \<and>
              rounded2 (recall s) (spec_recall l t p) \<and>
              rounded2 (f1 s) (spec_f1 l t p))"
  proof
    fix l assume l: "l \<in> set labels"
    show "\<exists>s. ev l = Some (Scores s) \<and>
        (if 2 < card (set t \<union> set p) \<or> (card (set t \<union> set p) = 2 \<and> l \<notin> set t \<union> set p)
         then rounded2 (precision s) (spec_macro spec_precision t p) \<and>
              rounded2 (recall s) (spec_macro spec_recall t p) \<and>
              rounded2 (f1 s) (spec_macro spec_f1 t p)
         else rounded2 (precision s) (spec_precision l t p) \<and>
              rounded2 (recall s) (spec_recall l t p) \<and>
              rounded2 (f1 s) (spec_f1 l t p))"
      by (rule exI[of _ "label_scores ties t p l"], rule conjI, rule key[OF l],
          rule label_scores_spec[OF len])
  qed
  have acc: "ev (Str ''accuracy'') = Some (Value (if t = [] then None else Some (spec_accuracy t p)))"
    if "Str ''accuracy'' \<notin> set labels"
    unfolding ev by (simp add: fold_labels_other[OF that] accuracy_score_spec[OF len])
  show ?thesis
    apply (rule exI[of _ t], rule exI[of _ p])
    using ct len check_targets_Inr(2,3)[OF ct] labels acc by blast
qed

lemma ex_targets: "check_targets ex_gold ex_predictions =
    Inr ([Str ''a'', Str ''a'', Str ''b''], [Str ''a'', Str ''b'', Str ''b''])"
  by (simp add: check_targets_def column_or_1d_def ex_gold_def ex_predictions_def same_kind_def
      is_Str_def is_class_label_def)

lemma ex_evaluate:
  "evaluate ties ex_labels ex_gold ex_predictions =
     Inr (foldl (\<lambda>ev k. ev(k \<mapsto> Scores (label_scores ties [Str ''a'', Str ''a'', Str ''b'']
                                              [Str ''a'', Str ''b'', Str ''b''] k)))
            [Str ''accuracy'' \<mapsto> Value (accuracy_score [Str ''a'', Str ''a'', Str ''b'']
                                           [Str ''a'', Str ''b'', Str ''b''])] ex_labels)"
  by (simp add: evaluate_def ex_targets same_kind_def is_Str_def ex_labels_def)

lemma ex_accuracy: "accuracy_score [Str ''a'', Str ''a'', Str ''b''] [Str ''a'', Str ''b'', Str ''b''] = Some (2 / 3)"
  by (simp add: accuracy_score_def)

lemma ex_present: "present_labels [Str ''a'', Str ''a'', Str ''b''] [Str ''a'', Str ''b'', Str ''b''] =
    [Str ''a'', Str ''b'']"
  by (simp add: present_labels_def)

lemma ex_card: "card (set [Str ''a'', Str ''a'', Str ''b''] \<union> set [Str ''a'', Str ''b'', Str ''b'']) = 2"
  unfolding present_labels_card[symmetric] ex_present by simp

lemma ex_scores_a: "label_scores ties [Str ''a'', Str ''a'', Str ''b''] [Str ''a'', Str ''b'', Str ''b''] (Str ''a'')
   = \<lparr>precision = 1, recall = 1 / 2, f1 = 67 / 100\<rparr>"
  by (simp add: label_scores_def binary_score_def ex_present precision_of_def
      recall_of_def f1_of_def true_positives_def ratio_def round2_def
      Let_def floor_rat_numeral)

lemma ex_scores_b: "label_scores ties [Str ''a'', Str ''a'', Str ''b''] [Str ''a'', Str ''b'', Str ''b''] (Str ''b'')
   = \<lparr>precision = 1 / 2, recall = 1, f1 = 67 / 100\<rparr>"
  by (simp add: label_scores_def binary_score_def ex_present precision_of_def
      recall_of_def f1_of_def true_positives_def ratio_def round2_def
      Let_def floor_rat_numeral)

lemma ex_spec_a:
  "spec_precision (Str ''a'') [Str ''a'', Str ''a'', Str ''b''] [Str ''a'', Str ''b'', Str ''b''] = 1"
  "spec_recall (Str ''a'') [Str ''a'', Str ''a'', Str ''b''] [Str ''a'', Str ''b'', Str ''b''] = 1 / 2"
  "spec_f1 (Str ''a'') [Str ''a'', Str ''a'', Str ''b''] [Str ''a'', Str ''b'', Str ''b''] = 2 / 3"
  by (simp_all add: spec_precision_def spec_recall_def spec_f1_def positions_def upt3)

lemma ex_spec_b:
  "spec_precision (Str ''b'') [Str ''a'', Str ''a'', Str ''b''] [Str ''a'', Str ''b'', Str ''b''] = 1 / 2"
  "spec_recall (Str ''b'') [Str ''a'', Str ''a'', Str ''b''] [Str ''a'', Str ''b'', Str ''b''] = 1"
  "spec_f1 (Str ''b'') [Str ''a'', Str ''a'', Str ''b''] [Str ''a'', Str ''b'', Str ''b''] = 2 / 3"
  by (simp_all add: spec_precision_def spec_recall_def spec_f1_def positions_def upt3)

lemma ex_spec_macro:
  "spec_macro spec_precision [Str ''a'', Str ''a'', Str ''b''] [Str ''a'', Str ''b'', Str ''b''] = 3 / 4"
  "spec_macro spec_recall [Str ''a'', Str ''a'', Str ''b''] [Str ''a'', Str ''b'', Str ''b''] = 3 / 4"
  "spec_macro spec_f1 [Str ''a'', Str ''a'', Str ''b''] [Str ''a'', Str ''b'', Str ''b''] = 2 / 3"
  unfolding spec_macro_def ex_card
  by (simp_all add: ex_spec_a ex_spec_b)

text \<open>
  Claim C2 as stated fails: two of three predictions are right, and the accuracy in the
  result is 2/3, which has no representation with two decimal places.
\<close>

theorem evaluate_accuracy_unrounded_counterexample:
  "map_sum id (\<lambda>ev. ev (Str ''accuracy''))
     (evaluate (tie_up ex_sk) ex_labels ex_gold ex_predictions) =
     Inr (Some (Value (Some (2 / 3)))) \<and> \<not> two_decimals (2 / 3)"
  unfolding ex_evaluate
  by (simp add: ex_accuracy ex_labels_def two_decimals_def floor_rat_numeral)

theorem evaluate_rounds_label_scores_witness:
  "\<exists>ev. evaluate (tie_up ex_sk) ex_labels ex_gold ex_predictions = Inr ev \<and>
     (\<exists>s. ev (Str ''a'') = Some (Scores s) \<and> rounded2 (precision s) 1 \<and>
        rounded2 (recall s) (1 / 2) \<and> rounded2 (f1 s) (2 / 3)) \<and>
     (\<exists>s. ev (Str ''c'') = Some (Scores s) \<and> rounded2 (precision s) (3 / 4) \<and>
        rounded2 (recall s) (3 / 4) \<and> rounded2 (f1 s) (2 / 3)) \<and>
     ev (Str ''accuracy'') = Some (Value (Some (2 / 3)))"
proof -
  let ?t = "[Str ''a'', Str ''a'', Str ''b'']" and ?p = "[Str ''a'', Str ''b'', Str ''b'']"
  obtain ev where ev: "evaluate (tie_up ex_sk) ex_labels ex_gold ex_predictions = Inr ev"
    by (simp add: ex_evaluate)
  from evaluate_rounds_label_scores[OF ev] obtain t p
    where ct: "check_targets ex_gold ex_predictions = Inr (t, p)"
      and labels: "\<forall>l\<in>set ex_labels. \<exists>s. ev l = Some (Scores s) \<and>
        (if 2 < card (set t \<union> set p) \<or> (card (set t \<union> set p) = 2 \<and> l \<notin> set t \<union> set p)
         then rounded2 (precision s) (spec_macro spec_precision t p) \<and>
              rounded2 (recall s) (spec_macro spec_recall t p) \<and>
              rounded2 (f1 s) (spec_macro spec_f1 t p)
         else rounded2 (precision s) (spec_precision l t p) \<and>
              rounded2 (recall s) (spec_recall l t p) \<and>
              rounded2 (f1 s) (spec_f1 l t p))"
      and acc: "Str ''accuracy'' \<notin> set ex_labels \<longrightarrow>
        ev (Str ''accuracy'') = Some (Value (if t = [] then None else Some (spec_accuracy t p)))"
    by blast
  from ct have tp: "t = ?t" "p = ?p" unfolding ex_targets by simp_all
  have a: "Str ''a'' \<in> set ex_labels" and c: "Str ''c'' \<in> set ex_labels"
    and n: "Str ''accuracy'' \<notin> set ex_labels"
    by (simp_all add: ex_labels_def)
  from labels[rule_format, OF a]
  have 1: "\<exists>s. ev (Str ''a'') = Some (Scores s) \<and> rounded2 (precision s) 1 \<and>
        rounded2 (recall s) (1 / 2) \<and> rounded2 (f1 s) (2 / 3)"
    unfolding tp ex_card by (simp add: ex_spec_a)
  from labels[rule_format, OF c]
  have 2: "\<exists>s. ev (Str ''c'') = Some (Scores s) \<and> rounded2 (precision s) (3 / 4) \<and>
        rounded2 (recall s) (3 / 4) \<and> rounded2 (f1 s) (2 / 3)"
    unfolding tp ex_card by (simp add: ex_spec_macro)
  from acc n have 3: "ev (Str ''accuracy'') = Some (Value (Some (2 / 3)))"
    unfolding tp by (simp add: spec_accuracy_def positions_def upt3)
  from ev 1 2 3 show ?thesis by blast
qed

lemma label_scores_multiclass:
  "2 < length (present_labels t p) \<Longrightarrow> label_scores ties t p l = macro_scores ties t p"
  by (simp add: label_scores_def binary_score_def)

text \<open>
  Claim C5, as the code has it. When the gold and the predicted labels together hold more
  than two distinct values (and are valid targets, so that \<^verbatim>\<open>accuracy_score\<close> passes),
  \<^verbatim>\<open>evaluate\<close> returns without an error, and every label key holds the same triple:
  the macro precision, recall and F1, each the unweighted mean of the metric over all
  labels that occur in either sequence, rounded to two decimal places. The binary
  computation fails for every label, and the failure is recovered in the loop.
\<close>

theorem evaluate_multiclass_macro:
  assumes valid: "check_targets gold predictions = Inr (t, p)"
    and kind: "same_kind (labels @ t @ p)"
    and multi: "2 < card (set t \<union> set p)"
  shows "\<exists>ev. evaluate ties labels gold predictions = Inr ev \<and>
     (\<forall>l\<in>set labels. ev l = Some (Scores (macro_scores ties t p))) \<and>
     precision (macro_scores ties t p) =
       round2 (ties Precision Macro t p)
         (sum_list (map (\<lambda>c. precision_of c t p) (present_labels t p))
          / of_nat (card (set t \<union> set p))) \<and>
     recall (macro_scores ties t p) =
       round2 (ties Recall Macro t p)
         (sum_list (map (\<lambda>c. recall_of c t p) (present_labels t p))
          / of_nat (card (set t \<union> set p))) \<and>
     f1 (macro_scores ties t p) =
       round2 (ties F1 Macro t p)
         (sum_list (map (\<lambda>c. f1_of c t p) (present_labels t p))
          / of_nat (card (set t \<union> set p))) \<and>
     set (present_labels t p) = set t \<union> set p \<and> distinct (present_labels t p) \<and>
     rounded2 (precision (macro_scores ties t p)) (spec_macro spec_precision t p) \<and>
     rounded2 (recall (macro_scores ties t p)) (spec_macro spec_recall t p) \<and>
     rounded2 (f1 (macro_scores ties t p)) (spec_macro spec_f1 t p)"
proof -
  let ?ev = "foldl (\<lambda>ev k. ev(k \<mapsto> Scores (label_scores ties t p k)))
            [Str ''accuracy'' \<mapsto> Value (accuracy_score t p)] labels"
  from multi have m: "2 < length (present_labels t p)" by (simp add: present_labels_card)
  have "?ev l = Some (Scores (macro_scores ties t p))" if "l \<in> set labels" for l
    using fold_labels_key[OF that] label_scores_multiclass[OF m] by simp
  moreover have "set (present_labels t p) = set t \<union> set p" "distinct (present_labels t p)"
    by (simp_all add: present_labels_def)
  moreover note macro_scores_spec[OF check_targets_Inr(1)[OF valid]]
  ultimately show ?thesis
    using evaluate_returns[OF valid kind]
    by (simp add: macro_scores_def macro_score_def Let_def present_labels_card)
qed

text \<open>
  Claim C5 as stated fails: the label space has three values, the test rows and the
  predictions hold two of them, and the entries of these two labels are their own binary
  scores, which differ.
\<close>

theorem evaluate_two_present_counterexample:
  "length (remdups ex_labels) = 3 \<and>
   map_sum id (\<lambda>ev. (ev (Str ''a''), ev (Str ''b'')))
     (evaluate (tie_up ex_sk) ex_labels ex_gold ex_predictions) =
     Inr (Some (Scores \<lparr>precision = 1, recall = 1 / 2, f1 = 67 / 100\<rparr>),
          Some (Scores \<lparr>precision = 1 / 2, recall = 1, f1 = 67 / 100\<rparr>))"
  unfolding ex_evaluate
  by (simp add: ex_scores_a ex_scores_b ex_labels_def)

lemma ex_targets3: "check_targets ex_gold3 ex_predictions3 =
    Inr ([Str ''a'', Str ''b'', Str ''c'', Str ''c''], [Str ''a'', Str ''c'', Str ''c'', Str ''c''])"
  by (simp add: check_targets_def column_or_1d_def ex_gold3_def ex_predictions3_def same_kind_def
      is_Str_def is_class_label_def)

theorem evaluate_multiclass_macro_witness:
  "check_targets ex_gold3 ex_predictions3 =
     Inr ([Str ''a'', Str ''b'', Str ''c'', Str ''c''], [Str ''a'', Str ''c'', Str ''c'', Str ''c'']) \<and>
   card (set [Str ''a'', Str ''b'', Str ''c'', Str ''c''] \<union> set [Str ''a'', Str ''c'', Str ''c'', Str ''c'']) = 3 \<and>
   (\<exists>ev. evaluate (tie_up ex_sk) ex_labels ex_gold3 ex_predictions3 = Inr ev \<and>
      ev (Str ''a'') = Some (Scores \<lparr>precision = 56 / 100, recall = 67 / 100, f1 = 6 / 10\<rparr>) \<and>
      ev (Str ''b'') = ev (Str ''a'') \<and> ev (Str ''c'') = ev (Str ''a''))"
proof -
  let ?t = "[Str ''a'', Str ''b'', Str ''c'', Str ''c'']"
  let ?p = "[Str ''a'', Str ''c'', Str ''c'', Str ''c'']"
  have kind: "same_kind (ex_labels @ ?t @ ?p)"
    by (simp add: same_kind_def is_Str_def ex_labels_def)
  have card3: "card (set ?t \<union> set ?p) = 3"
    unfolding present_labels_card[symmetric] by (simp add: present_labels_def)
  then have multi: "2 < card (set ?t \<union> set ?p)" by simp
  have macro: "macro_scores (tie_up ex_sk) ?t ?p =
      \<lparr>precision = 56 / 100, recall = 67 / 100, f1 = 6 / 10\<rparr>"
    by (simp add: macro_scores_def macro_score_def present_labels_def precision_of_def
        recall_of_def f1_of_def true_positives_def ratio_def round2_def
        Let_def floor_rat_numeral)
  from evaluate_multiclass_macro[OF ex_targets3 kind multi, of "tie_up ex_sk"]
  obtain ev where "evaluate (tie_up ex_sk) ex_labels ex_gold3 ex_predictions3 = Inr ev"
    and "\<forall>l\<in>set ex_labels. ev l = Some (Scores (macro_scores (tie_up ex_sk) ?t ?p))"
    by blast
  with macro ex_targets3 card3 show ?thesis
    by (auto simp: ex_labels_def)
qed

text \<open>
  Claim C6. In a binary computation, that is with a label space of two values from which
  the gold and the predicted labels are drawn, a label that occurs in neither sequence
  gets precision, recall and F1 equal to 0, and \<^verbatim>\<open>evaluate\<close> returns without an
  error (the sequences being valid targets).
\<close>

theorem evaluate_absent_label_zero:
  assumes valid: "check_targets gold predictions = Inr (t, p)"
    and kind: "same_kind (labels @ t @ p)"
    and binary: "card (set labels) = 2"
    and drawn: "set t \<union> set p \<subseteq> set labels"
    and l: "l \<in> set labels" "l \<notin> set t" "l \<notin> set p"
  shows "\<exists>ev. evaluate ties labels gold predictions = Inr ev \<and>
           ev l = Some (Scores \<lparr>precision = 0, recall = 0, f1 = 0\<rparr>)"
proof -
  from drawn l have "set t \<union> set p \<subseteq> set labels - {l}" by auto
  then have "card (set t \<union> set p) \<le> card (set labels - {l})"
    by (intro card_mono) auto
  with binary l(1) have "card (set t \<union> set p) \<le> 1" by simp
  then have few: "length (present_labels t p) \<le> 1" by (simp add: present_labels_card)
  have tp: "true_positives l t p = 0"
    using l(2) by (auto simp: true_positives_def filter_empty_conv dest: set_zip_leftD)
  from few tp have "label_scores ties t p l = \<lparr>precision = 0, recall = 0, f1 = 0\<rparr>"
    by (simp add: label_scores_def binary_score_def precision_of_def recall_of_def f1_of_def
        ratio_def round2_zero)
  with fold_labels_key[OF l(1)] evaluate_returns[OF valid kind] show ?thesis by simp
qed

theorem evaluate_absent_label_zero_witness:
  "check_targets ex_gold_one ex_predictions_one = Inr ([Str ''B'', Str ''B''], [Str ''B'', Str ''B'']) \<and>
   card (set ex_two_labels) = 2 \<and> Str ''M'' \<in> set ex_two_labels \<and>
   (\<exists>ev. evaluate (tie_up ex_sk) ex_two_labels ex_gold_one ex_predictions_one = Inr ev \<and>
      ev (Str ''M'') = Some (Scores \<lparr>precision = 0, recall = 0, f1 = 0\<rparr>))"
proof -
  let ?t = "[Str ''B'', Str ''B'']"
  have valid: "check_targets ex_gold_one ex_predictions_one = Inr (?t, ?t)"
    by (simp add: check_targets_def column_or_1d_def ex_gold_one_def ex_predictions_one_def
        same_kind_def is_Str_def is_class_label_def)
  have kind: "same_kind (ex_two_labels @ ?t @ ?t)"
    by (simp add: same_kind_def is_Str_def ex_two_labels_def)
  have binary: "card (set ex_two_labels) = 2" by (simp add: ex_two_labels_def)
  have drawn: "set ?t \<union> set ?t \<subseteq> set ex_two_labels" by (simp add: ex_two_labels_def)
  have l: "Str ''M'' \<in> set ex_two_labels" "Str ''M'' \<notin> set ?t"
    by (simp_all add: ex_two_labels_def)
  from evaluate_absent_label_zero[OF valid kind binary drawn l(1) l(2) l(2), of "tie_up ex_sk"]
    valid binary l(1)
  show ?thesis by blast
qed

section \<open>Properties of the driver\<close>

lemma chain_append:
  "chain step s rs s1 \<Longrightarrow> chain step s1 rs' s' \<Longrightarrow> chain step s (rs @ rs') s'"
  by (induction rule: chain.induct) (auto intro: chain.intros)

lemma chain_mono:
  assumes "chain P s rs s'"
    and "\<And>r a b. r \<in> set rs \<Longrightarrow> P r a b \<Longrightarrow> Q r a b"
  shows "chain Q s rs s'"
  using assms by (induction rule: chain.induct) (auto intro: chain.intros)

lemma chain_invariant:
  assumes "chain P s rs s'"
    and "\<And>r a b. P r a b \<Longrightarrow> I a \<Longrightarrow> I b"
    and "I s"
  shows "chain (\<lambda>r a b. P r a b \<and> I a) s rs s' \<and> I s'"
  using assms by (induction rule: chain.induct) (auto intro: chain.intros)

lemma model_fit_Inr:
  assumes "model_fit sk s model X y = Inr s'"
  shows "\<exists>obj f rng. objects s model = Some obj \<and>
           fit sk (params obj) (fitted obj) (estimator_rng sk (params obj) (ambient s)) X y =
             Inr (f, rng) \<and>
           objects s' = (objects s)(model \<mapsto> obj\<lparr>fitted := Some f\<rparr>) \<and>
           (\<not> draws_global (params obj) \<longrightarrow> ambient s' = ambient s)"
  using assms by (auto simp: model_fit_def split: option.splits sum.splits prod.splits)

lemma model_predict_Inr:
  assumes "model_predict sk s model X = Inr predictions"
    and "objects s model = Some obj" and "fitted obj = Some f"
  shows "\<exists>pred. predict sk (params obj) f X = Inr pred \<and> predictions = map Scalar pred"
  using assms by (auto simp: model_predict_def split: option.splits sum.splits)

lemma classify_impute_fit:
  assumes "classify_impute X_train X_test = Inr (statistics, A, B)"
  shows "imputer_fit X_train = Inr statistics"
  using assms by (auto simp: classify_impute_def split: sum.splits)

lemma pipeline_Inr:
  assumes "pipeline sk s model dataset_id data labels = Inr (s', predictions, ev)"
  shows "\<exists>obj X_train X_test y_train y_test statistics f rng pred.
        objects s model = Some obj \<and>
        classify_split sk (ambient s) dataset_id data =
          Inr ((X_train, X_test, y_train, y_test), ambient s) \<and>
        imputer_fit X_train = Inr statistics \<and>
        imputer_transform statistics X_train = Inr (map (impute_row statistics) X_train) \<and>
        imputer_transform statistics X_test = Inr (map (impute_row statistics) X_test) \<and>
        fit sk (params obj) (fitted obj) (estimator_rng sk (params obj) (ambient s))
          (map (impute_row statistics) X_train) y_train = Inr (f, rng) \<and>
        objects s' = (objects s)(model \<mapsto> obj\<lparr>fitted := Some f\<rparr>) \<and>
        (\<not> draws_global (params obj) \<longrightarrow> ambient s' = ambient s) \<and>
        predict sk (params obj) f (map (impute_row statistics) X_test) = Inr pred \<and>
        predictions = map Scalar pred \<and>
        evaluate (tie_up sk) labels y_test (map Scalar pred) = Inr ev"
proof -
  from assms obtain actual
    where cl: "classify sk s model dataset_id data = Inr (s', predictions, actual)"
      and ev: "evaluate (tie_up sk) labels actual predictions = Inr ev"
    by (auto simp: pipeline_def split: sum.splits prod.splits)
  from classify_Inr[OF cl] obtain X_train X_test y_train statistics
    where split: "classify_split sk (ambient s) dataset_id data =
             Inr ((X_train, X_test, y_train, actual), ambient s)"
      and imp: "classify_impute X_train X_test =
             Inr (statistics, map (impute_row statistics) X_train,
                  map (impute_row statistics) X_test)"
      and mf: "model_fit sk s model (map (impute_row statistics) X_train) y_train = Inr s'"
      and mp: "model_predict sk s' model (map (impute_row statistics) X_test) = Inr predictions"
    by blast
  from imp have tr: "imputer_fit X_train = Inr statistics"
      "imputer_transform statistics X_train = Inr (map (impute_row statistics) X_train)"
      "imputer_transform statistics X_test = Inr (map (impute_row statistics) X_test)"
    by (auto simp: classify_impute_def split: sum.splits)
  from model_fit_Inr[OF mf] obtain obj f rng
    where obj: "objects s model = Some obj"
      and f: "fit sk (params obj) (fitted obj) (estimator_rng sk (params obj) (ambient s))
          (map (impute_row statistics) X_train) y_train = Inr (f, rng)"
      and s': "objects s' = (objects s)(model \<mapsto> obj\<lparr>fitted := Some f\<rparr>)"
      and amb: "\<not> draws_global (params obj) \<longrightarrow> ambient s' = ambient s"
    by blast
  from s' have "objects s' model = Some (obj\<lparr>fitted := Some f\<rparr>)" by simp
  from model_predict_Inr[OF mp this] obtain pred
    where pred: "predict sk (params obj) f (map (impute_row statistics) X_test) = Inr pred"
      "predictions = map Scalar pred"
    by auto
  from obj split tr f s' amb pred ev show ?thesis by blast
qed

lemma pipeline_run_fits:
  assumes p: "pipeline sk s model dataset_id data (map fst labels) = Inr (s', predictions, ev)"
    and rd: "read_data read_csv parse dataset_id = Inr data"
    and ov: "outcome_values dataset_id data = Inr labels"
  shows "run_fits read_csv parse sk
           \<lparr>run_dataset = dataset_id, run_labels = labels, run_classifier = name,
            run_model = model, run_evaluation = ev\<rparr> s s'"
  using pipeline_Inr[OF p] rd ov unfolding run_fits_def by simp blast

lemma run_fits_objects:
  assumes "run_fits read_csv parse sk r s s'"
  shows "\<exists>obj f. objects s (run_model r) = Some obj \<and>
           objects s' = (objects s)(run_model r \<mapsto> obj\<lparr>fitted := Some f\<rparr>)"
  using assms unfolding run_fits_def by blast

lemma run_fits_kinds:
  assumes "run_fits read_csv parse sk r s s'"
  shows "kinds (objects s') = kinds (objects s)"
proof -
  from run_fits_objects[OF assms] obtain obj f
    where "objects s (run_model r) = Some obj"
      "objects s' = (objects s)(run_model r \<mapsto> obj\<lparr>fitted := Some f\<rparr>)" by blast
  then show ?thesis by (auto simp: kinds_def fun_eq_iff)
qed

lemma run_classifiers_chain:
  assumes "run_classifiers sk s dataset_id data labels cs = Inr (s', rs)"
    and rd: "read_data read_csv parse dataset_id = Inr data"
    and ov: "outcome_values dataset_id data = Inr labels"
    and "distinct (map snd cs)"
    and "\<forall>m\<in>snd ` set cs. \<forall>obj. objects s m = Some obj \<longrightarrow> (fitted obj = None) = first"
  shows "chain (\<lambda>r a b. run_fits read_csv parse sk r a b \<and> run_dataset r = dataset_id \<and>
                  (\<forall>obj. objects a (run_model r) = Some obj \<longrightarrow> (fitted obj = None) = first))
           s rs s' \<and>
         map (\<lambda>r. (run_classifier r, run_model r)) rs = cs \<and>
         (\<forall>m. m \<notin> snd ` set cs \<longrightarrow> objects s' m = objects s m) \<and>
         (\<forall>m\<in>snd ` set cs. \<forall>obj. objects s' m = Some obj \<longrightarrow> fitted obj \<noteq> None)"
  using assms(1,4,5)
proof (induction cs arbitrary: s rs)
  case Nil
  then show ?case by (auto intro: chain.intros)
next
  case (Cons c cs)
  obtain name model where c: "c = (name, model)" by (cases c) auto
  from Cons.prems(1) obtain s1 pred ev rs'
    where p: "pipeline sk s model dataset_id data (map fst labels) = Inr (s1, pred, ev)"
      and r: "run_classifiers sk s1 dataset_id data labels cs = Inr (s', rs')"
      and rs: "rs = \<lparr>run_dataset = dataset_id, run_labels = labels, run_classifier = name,
               run_model = model, run_evaluation = ev\<rparr> # rs'"
    unfolding c by (auto split: sum.splits prod.splits)
  let ?r = "\<lparr>run_dataset = dataset_id, run_labels = labels, run_classifier = name,
               run_model = model, run_evaluation = ev\<rparr>"
  note rf = pipeline_run_fits[OF p rd ov, of name]
  from run_fits_objects[OF rf] obtain obj f
    where obj: "objects s model = Some obj"
      and s1: "objects s1 = (objects s)(model \<mapsto> obj\<lparr>fitted := Some f\<rparr>)"
    by auto
  from Cons.prems(2) have notin: "model \<notin> snd ` set cs" and dist: "distinct (map snd cs)"
    by (auto simp: c)
  from Cons.prems(3) notin s1
  have pre: "\<forall>m\<in>snd ` set cs. \<forall>obj. objects s1 m = Some obj \<longrightarrow> (fitted obj = None) = first"
    by (auto simp: c)
  note ih = Cons.IH[OF r dist pre]
  from Cons.prems(3) have here: "\<forall>obj. objects s model = Some obj \<longrightarrow> (fitted obj = None) = first"
    by (simp add: c)
  have 1: "chain (\<lambda>r a b. run_fits read_csv parse sk r a b \<and> run_dataset r = dataset_id \<and>
                  (\<forall>obj. objects a (run_model r) = Some obj \<longrightarrow> (fitted obj = None) = first))
           s rs s'"
    unfolding rs
    by (rule chain_Cons[where ?s1.0 = s1]) (use rf here ih in simp_all)
  have 2: "map (\<lambda>r. (run_classifier r, run_model r)) rs = c # cs"
    using ih by (simp add: rs c)
  have 3: "\<forall>m. m \<notin> snd ` set (c # cs) \<longrightarrow> objects s' m = objects s m"
    using ih s1 by (auto simp: c)
  have 4: "\<forall>m\<in>snd ` set (c # cs). \<forall>obj. objects s' m = Some obj \<longrightarrow> fitted obj \<noteq> None"
  proof
    fix m assume m: "m \<in> snd ` set (c # cs)"
    show "\<forall>obj. objects s' m = Some obj \<longrightarrow> fitted obj \<noteq> None"
    proof (cases "m \<in> snd ` set cs")
      case True
      with ih show ?thesis by blast
    next
      case False
      with m have "m = model" by (auto simp: c)
      with False ih s1 have "objects s' m = Some (obj\<lparr>fitted := Some f\<rparr>)" by auto
      then show ?thesis by auto
    qed
  qed
  from 1 2 3 4 show ?case by blast
qed

lemma run_datasets_chain:
  assumes "run_datasets read_csv parse sk s cls ds = Inr (s', rs)"
    and "distinct (map snd cls)"
    and "distinct ds"
    and "\<forall>m\<in>snd ` set cls. \<forall>obj. objects s m = Some obj \<longrightarrow> (fitted obj = None) = first"
  shows "chain (\<lambda>r a b. run_fits read_csv parse sk r a b \<and> run_dataset r \<in> set ds \<and>
                  (\<forall>obj. objects a (run_model r) = Some obj \<longrightarrow>
                     (fitted obj = None) = (first \<and> run_dataset r = hd ds)))
           s rs s' \<and>
         map (\<lambda>r. (run_dataset r, run_classifier r, run_model r)) rs =
           concat (map (\<lambda>d. map (\<lambda>(name, model). (d, name, model)) cls) ds)"
  using assms(1,3,4)
proof (induction ds arbitrary: s rs first)
  case Nil
  then show ?case by (auto intro: chain.intros)
next
  case (Cons d ds)
  from Cons.prems(1) obtain data labels s1 rs1 rs2
    where rd: "read_data read_csv parse d = Inr data"
      and ov: "outcome_values d data = Inr labels"
      and rc: "run_classifiers sk s d data labels cls = Inr (s1, rs1)"
      and rds: "run_datasets read_csv parse sk s1 cls ds = Inr (s', rs2)"
      and rs: "rs = rs1 @ rs2"
    by (auto split: sum.splits prod.splits)
  note a = run_classifiers_chain[OF rc rd ov assms(2) Cons.prems(3)]
  from a have post: "\<forall>m\<in>snd ` set cls. \<forall>obj. objects s1 m = Some obj \<longrightarrow> (fitted obj = None) = False"
    by simp
  from Cons.prems(2) have dist: "distinct ds" and d: "d \<notin> set ds" by simp_all
  note b = Cons.IH[OF rds dist post]
  let ?step = "\<lambda>r a b. run_fits read_csv parse sk r a b \<and> run_dataset r \<in> set (d # ds) \<and>
                  (\<forall>obj. objects a (run_model r) = Some obj \<longrightarrow>
                     (fitted obj = None) = (first \<and> run_dataset r = hd (d # ds)))"
  from a have "chain (\<lambda>r a b. run_fits read_csv parse sk r a b \<and> run_dataset r = d \<and>
                  (\<forall>obj. objects a (run_model r) = Some obj \<longrightarrow> (fitted obj = None) = first))
           s rs1 s1" by blast
  then have c1: "chain ?step s rs1 s1"
    by (rule chain_mono) simp
  from b have "chain (\<lambda>r a b. run_fits read_csv parse sk r a b \<and> run_dataset r \<in> set ds \<and>
                  (\<forall>obj. objects a (run_model r) = Some obj \<longrightarrow>
                     (fitted obj = None) = (False \<and> run_dataset r = hd ds)))
           s1 rs2 s'" by blast
  then have c2: "chain ?step s1 rs2 s'"
    by (rule chain_mono) (use d in auto)
  have tr1: "map (\<lambda>r. (run_dataset r, run_classifier r, run_model r)) rs1 =
      map (\<lambda>(name, model). (d, name, model)) cls"
  proof -
    from a have m: "map (\<lambda>r. (run_classifier r, run_model r)) rs1 = cls" by blast
    from a have "chain (\<lambda>r a b. run_dataset r = d) s rs1 s1"
      by (elim conjE chain_mono) simp
    then have "\<forall>r\<in>set rs1. run_dataset r = d"
      by (induction rule: chain.induct) auto
    then have "map (\<lambda>r. (run_dataset r, run_classifier r, run_model r)) rs1 =
        map (\<lambda>(name, model). (d, name, model)) (map (\<lambda>r. (run_classifier r, run_model r)) rs1)"
      by simp
    then show ?thesis unfolding m .
  qed
  from chain_append[OF c1 c2] tr1 b show ?case by (simp add: rs)
qed


lemma initial_heap_unfitted:
  "\<forall>m\<in>snd ` set classifiers. \<forall>obj. (initial_heap :: nat \<rightharpoonup> 'f object) m = Some obj \<longrightarrow>
     (fitted obj = None) = True"
  by (auto simp: classifiers_def initial_heap_def)

lemma initial_heap_kinds:
  "map (\<lambda>(name, model). (name, kinds (initial_heap :: nat \<rightharpoonup> 'f object) model)) classifiers =
     [(''Decision-Tree'', Some (DecisionTreeClassifier 5 (Some 1))),
      (''K-NN'', Some (KNeighborsClassifier 3)),
      (''Naive-Bayes'', Some GaussianNB),
      (''SVM'', Some (SVC ''rbf'' 2 1 (Some 1)))]"
  by (simp add: classifiers_def kinds_def initial_heap_def)

lemma initial_heap_dom: "dom (kinds (initial_heap :: nat \<rightharpoonup> 'f object)) = {0, 1, 2, 3}"
  by (auto simp: kinds_def initial_heap_def dom_def)

text \<open>
  Claim C3, as the code has it. The four estimator objects are created once, before the
  loops, with the hyperparameters of the dict \<^verbatim>\<open>classifiers\<close>. In a run of the driver
  that returns, the sixteen (dataset, classifier) iterations come in the order of the two
  loops and lead from the initial state to the final one, and every iteration fits the
  object its classifier's name refers to, which has the requested hyperparameters, on the
  filled train rows of the iteration's dataset, and leaves every other object as it was.
  Within one dataset the four iterations fit four different objects. No iteration creates
  an object: the object an iteration fits is not yet fitted in the iterations of the
  first dataset, and in every later iteration it holds what it learned on the dataset
  before.
\<close>

theorem driver_reuses_four_estimators:
  assumes "driver read_csv parse (sk :: ('f, 'g) sklearn) g = Inr (h, runs)"
  shows "map (\<lambda>r. (run_dataset r, run_classifier r, run_model r)) runs =
           concat (map (\<lambda>d. map (\<lambda>(name, model). (d, name, model)) classifiers) datasets) \<and>
         length runs = 16 \<and>
         set (map run_model runs) = {0, 1, 2, 3} \<and>
         dom (objects h) = {0, 1, 2, 3} \<and>
         kinds (objects h) = kinds (initial_heap :: nat \<rightharpoonup> 'f object) \<and>
         map (\<lambda>(name, model). (name, kinds (initial_heap :: nat \<rightharpoonup> 'f object) model)) classifiers =
           [(''Decision-Tree'', Some (DecisionTreeClassifier 5 (Some 1))),
            (''K-NN'', Some (KNeighborsClassifier 3)),
            (''Naive-Bayes'', Some GaussianNB),
            (''SVM'', Some (SVC ''rbf'' 2 1 (Some 1)))] \<and>
         chain (\<lambda>r s s'. run_fits read_csv parse sk r s s' \<and>
                  kinds (objects s) = kinds (initial_heap :: nat \<rightharpoonup> 'f object) \<and>
                  (\<forall>obj. objects s (run_model r) = Some obj \<longrightarrow>
                     (fitted obj = None) = (run_dataset r = ''breast_cancer'')))
           \<lparr>objects = initial_heap, ambient = g\<rparr> runs h"
proof -
  let ?s0 = "\<lparr>objects = initial_heap, ambient = g\<rparr> :: ('f, 'g) state"
  from assms have rd: "run_datasets read_csv parse sk ?s0 classifiers datasets = Inr (h, runs)"
    by (simp add: driver_def)
  have d1: "distinct (map snd classifiers)" by (simp add: classifiers_def)
  have d2: "distinct datasets" by (simp add: datasets_def)
  have pre: "\<forall>m\<in>snd ` set classifiers. \<forall>obj. objects ?s0 m = Some obj \<longrightarrow>
      (fitted obj = None) = True"
    using initial_heap_unfitted by simp
  note c = run_datasets_chain[OF rd d1 d2 pre]
  from c have trace: "map (\<lambda>r. (run_dataset r, run_classifier r, run_model r)) runs =
      concat (map (\<lambda>d. map (\<lambda>(name, model). (d, name, model)) classifiers) datasets)"
    by blast
  from c have "chain (\<lambda>r a b. run_fits read_csv parse sk r a b \<and> run_dataset r \<in> set datasets \<and>
                  (\<forall>obj. objects a (run_model r) = Some obj \<longrightarrow>
                     (fitted obj = None) = (True \<and> run_dataset r = hd datasets)))
           ?s0 runs h" by blast
  then have ch0: "chain (\<lambda>r a b. run_fits read_csv parse sk r a b \<and>
                  (\<forall>obj. objects a (run_model r) = Some obj \<longrightarrow>
                     (fitted obj = None) = (run_dataset r = ''breast_cancer'')))
           ?s0 runs h"
    by (rule chain_mono) (simp add: datasets_def)
  have inv: "kinds (objects b) = kinds (initial_heap :: nat \<rightharpoonup> 'f object)"
    if "run_fits read_csv parse sk r a b \<and>
          (\<forall>obj. objects a (run_model r) = Some obj \<longrightarrow>
             (fitted obj = None) = (run_dataset r = ''breast_cancer''))"
      and "kinds (objects a) = kinds (initial_heap :: nat \<rightharpoonup> 'f object)"
    for r a b
    using that run_fits_kinds[of read_csv parse sk r a b] by simp
  have init: "kinds (objects ?s0) = kinds (initial_heap :: nat \<rightharpoonup> 'f object)" by simp
  from chain_invariant[where I = "\<lambda>s. kinds (objects s) = kinds (initial_heap :: nat \<rightharpoonup> 'f object)",
      OF ch0 inv init]
  have ch: "chain (\<lambda>r a b. (run_fits read_csv parse sk r a b \<and>
                  (\<forall>obj. objects a (run_model r) = Some obj \<longrightarrow>
                     (fitted obj = None) = (run_dataset r = ''breast_cancer''))) \<and>
                  kinds (objects a) = kinds (initial_heap :: nat \<rightharpoonup> 'f object))
           ?s0 runs h"
    and k: "kinds (objects h) = kinds (initial_heap :: nat \<rightharpoonup> 'f object)"
    by simp_all
  from ch have chain: "chain (\<lambda>r s s'. run_fits read_csv parse sk r s s' \<and>
                  kinds (objects s) = kinds (initial_heap :: nat \<rightharpoonup> 'f object) \<and>
                  (\<forall>obj. objects s (run_model r) = Some obj \<longrightarrow>
                     (fitted obj = None) = (run_dataset r = ''breast_cancer'')))
           ?s0 runs h"
    by (rule chain_mono) simp
  have "length runs = length (map (\<lambda>r. (run_dataset r, run_classifier r, run_model r)) runs)"
    by simp
  also have "\<dots> = 16" unfolding trace by (simp add: classifiers_def datasets_def)
  finally have len: "length runs = 16" .
  have "map run_model runs =
      map (\<lambda>t. snd (snd t)) (map (\<lambda>r. (run_dataset r, run_classifier r, run_model r)) runs)"
    by simp
  also have "\<dots> = [0, 1, 2, 3, 0, 1, 2, 3, 0, 1, 2, 3, 0, 1, 2, 3]"
    unfolding trace by (simp add: classifiers_def datasets_def)
  finally have models: "set (map run_model runs) = {0, 1, 2, 3}" by auto
  have "dom (objects h) = dom (kinds (objects h))" by (auto simp: kinds_def dom_def)
  also have "\<dots> = {0, 1, 2, 3}" unfolding k by (rule initial_heap_dom)
  finally have d: "dom (objects h) = {0, 1, 2, 3}" .
  from trace len models d k initial_heap_kinds chain show ?thesis by blast
qed

lemma ex_driver_returns: "\<not> isl (driver ex_files ex_parse ex_sk 7)"
  by code_simp

theorem driver_reuses_four_estimators_witness:
  "\<exists>h runs. driver ex_files ex_parse ex_sk 7 = Inr (h, runs) \<and> length runs = 16 \<and>
     set (map run_model runs) = {0, 1, 2, 3} \<and> dom (objects h) = {0, 1, 2, 3} \<and>
     (\<exists>s1. run_fits ex_files ex_parse ex_sk (runs ! 0)
              \<lparr>objects = initial_heap, ambient = 7\<rparr> s1)"
proof -
  from ex_driver_returns obtain h runs where d: "driver ex_files ex_parse ex_sk 7 = Inr (h, runs)"
    by (cases "driver ex_files ex_parse ex_sk 7") auto
  note t = driver_reuses_four_estimators[OF d]
  from t have len: "length runs = 16" by blast
  then obtain r rs where runs: "runs = r # rs" by (cases runs) auto
  from t have "chain (\<lambda>r s s'. run_fits ex_files ex_parse ex_sk r s s' \<and>
                  kinds (objects s) = kinds (initial_heap :: nat \<rightharpoonup> cell object) \<and>
                  (\<forall>obj. objects s (run_model r) = Some obj \<longrightarrow>
                     (fitted obj = None) = (run_dataset r = ''breast_cancer'')))
           \<lparr>objects = initial_heap, ambient = 7\<rparr> (r # rs) h"
    unfolding runs by blast
  then have "\<exists>s1. run_fits ex_files ex_parse ex_sk r \<lparr>objects = initial_heap, ambient = 7\<rparr> s1"
    by (cases rule: chain.cases) auto
  with t d show ?thesis unfolding runs by auto
qed

text \<open>
  Claim C3 as stated fails. In a run of the driver on four small files, the first
  iteration (\<^verbatim>\<open>breast_cancer\<close>, Decision-Tree) and the fifth (\<^verbatim>\<open>hyperthyroidism\<close>,
  Decision-Tree) fit the same object; and when the loop over the classifiers ends for
  \<^verbatim>\<open>breast_cancer\<close>, this object holds what it learned there, so that the next dataset
  does not start from a fresh object.
\<close>

theorem driver_reuses_object_counterexample:
  "map_sum id (\<lambda>(h, runs). map (\<lambda>r. (run_dataset r, run_classifier r, run_model r))
                             [runs ! 0, runs ! 4])
     (driver ex_files ex_parse ex_sk 7)
   = Inr [(''breast_cancer'', ''Decision-Tree'', 0), (''hyperthyroidism'', ''Decision-Tree'', 0)] \<and>
   map_sum id (\<lambda>(h, runs). map_option fitted (objects h 0))
     (run_datasets ex_files ex_parse ex_sk \<lparr>objects = initial_heap, ambient = 7\<rparr> classifiers
        [''breast_cancer''])
   = Inr (Some (Some (Str ''B'')))"
  by code_simp


lemma classify_split_any:
  assumes "classify_split sk g dataset_id data = Inr (parts, g)"
  shows "classify_split sk g' dataset_id data = Inr (parts, g')"
  using assms
  by (auto simp: classify_split_def train_test_split_def split_indices_seeded
      split: sum.splits if_splits)

lemma estimator_rng_seeded:
  "\<not> draws_global k \<Longrightarrow> estimator_rng sk k g = estimator_rng sk k g'"
  by (cases k) (auto simp: check_random_state_def)

lemma initial_heap_seeded:
  "kinds (initial_heap :: nat \<rightharpoonup> 'f object) model = Some k \<Longrightarrow> \<not> draws_global k"
  by (auto simp: kinds_def initial_heap_def split: if_splits)

lemma pipeline_returns:
  assumes "objects s model = Some obj"
    and "classify_split sk (ambient s) dataset_id data =
          Inr ((X_train, X_test, y_train, y_test), ambient s)"
    and "imputer_fit X_train = Inr statistics"
    and "imputer_transform statistics X_train = Inr A"
    and "imputer_transform statistics X_test = Inr B"
    and "fit sk (params obj) (fitted obj) (estimator_rng sk (params obj) (ambient s)) A y_train =
          Inr (f, rng)"
    and "\<not> draws_global (params obj)"
    and "predict sk (params obj) f B = Inr pred"
    and "evaluate (tie_up sk) labels y_test (map Scalar pred) = Inr ev"
  shows "pipeline sk s model dataset_id data labels =
     Inr (s\<lparr>objects := (objects s)(model \<mapsto> obj\<lparr>fitted := Some f\<rparr>)\<rparr>, map Scalar pred, ev)"
  using assms
  by (simp add: pipeline_def classify_def classify_impute_def model_fit_def model_predict_def
      split: option.splits)

text \<open>
  Claim C8. Take a run of the pipeline (split, impute, fit, predict, evaluate) that
  returns, on an estimator object with the hyperparameters the program gave it. Every
  other run on the same dataset and the same labels, on an object with the same
  hyperparameters, returns the same predictions and the same evaluation, whatever the
  state of the global random generator and of the rest of the heap in the two runs:
  the split is seeded, and the estimators are seeded or draw no random numbers. The
  object of the second run must hold what the object of the first run held, unless
  \<^verbatim>\<open>fit\<close> forgets what an earlier \<^verbatim>\<open>fit\<close> of the object learned. In that case a
  second run in the state the first run left, after any number of draws from the global
  generator, returns the same predictions and the same evaluation and leaves the state
  as it found it. No run advances the global generator.
\<close>

theorem pipeline_twice_identical:
  assumes first: "pipeline (sk :: ('f, 'g) sklearn) s model dataset_id data labels =
      Inr (s1, predictions, ev)"
    and kind: "kinds (objects s) model = kinds (initial_heap :: nat \<rightharpoonup> 'f object) model"
  shows "(\<forall>s2. kinds (objects s2) model = kinds (objects s) model \<and>
               (fit_resets sk \<or>
                map_option fitted (objects s2 model) = map_option fitted (objects s model)) \<longrightarrow>
            (\<exists>s2'. pipeline sk s2 model dataset_id data labels = Inr (s2', predictions, ev) \<and>
                    ambient s2' = ambient s2)) \<and>
         (fit_resets sk \<longrightarrow>
            (\<forall>g. pipeline sk (s1\<lparr>ambient := g\<rparr>) model dataset_id data labels =
                   Inr (s1\<lparr>ambient := g\<rparr>, predictions, ev))) \<and>
         ambient s1 = ambient s"
proof -
  from pipeline_Inr[OF first] obtain obj X_train X_test y_train y_test statistics f rng pred
    where obj: "objects s model = Some obj"
      and split: "classify_split sk (ambient s) dataset_id data =
          Inr ((X_train, X_test, y_train, y_test), ambient s)"
      and imp: "imputer_fit X_train = Inr statistics"
        "imputer_transform statistics X_train = Inr (map (impute_row statistics) X_train)"
        "imputer_transform statistics X_test = Inr (map (impute_row statistics) X_test)"
      and f: "fit sk (params obj) (fitted obj) (estimator_rng sk (params obj) (ambient s))
          (map (impute_row statistics) X_train) y_train = Inr (f, rng)"
      and s1: "objects s1 = (objects s)(model \<mapsto> obj\<lparr>fitted := Some f\<rparr>)"
      and amb: "\<not> draws_global (params obj) \<longrightarrow> ambient s1 = ambient s"
      and pred: "predict sk (params obj) f (map (impute_row statistics) X_test) = Inr pred"
        "predictions = map Scalar pred"
      and ev: "evaluate (tie_up sk) labels y_test (map Scalar pred) = Inr ev"
    by blast
  from kind obj have "kinds (initial_heap :: nat \<rightharpoonup> 'f object) model = Some (params obj)"
    by (simp add: kinds_def)
  then have seeded: "\<not> draws_global (params obj)" by (rule initial_heap_seeded)
  with amb have a1: "ambient s1 = ambient s" by simp
  have again: "pipeline sk s2 model dataset_id data labels =
      Inr (s2\<lparr>objects := (objects s2)(model \<mapsto> obj2\<lparr>fitted := Some f\<rparr>)\<rparr>, predictions, ev)"
    if o2: "objects s2 model = Some obj2" and p2: "params obj2 = params obj"
      and r: "fit_resets sk \<or> fitted obj2 = fitted obj"
    for s2 :: "('f, 'g) state" and obj2
  proof -
    from r have "fit sk (params obj) (fitted obj2) (estimator_rng sk (params obj) (ambient s))
          (map (impute_row statistics) X_train) y_train =
        fit sk (params obj) (fitted obj) (estimator_rng sk (params obj) (ambient s))
          (map (impute_row statistics) X_train) y_train"
      unfolding fit_resets_def by metis
    then have f2: "fit sk (params obj2) (fitted obj2) (estimator_rng sk (params obj2) (ambient s2))
          (map (impute_row statistics) X_train) y_train = Inr (f, rng)"
      unfolding p2 estimator_rng_seeded[OF seeded, of sk "ambient s2" "ambient s"] f .
    from seeded have seeded2: "\<not> draws_global (params obj2)" by (simp add: p2)
    from pred(1) have pred2: "predict sk (params obj2) f (map (impute_row statistics) X_test) = Inr pred"
      by (simp add: p2)
    show ?thesis
      unfolding pred(2)
      by (rule pipeline_returns[OF o2 classify_split_any[OF split] imp f2 seeded2 pred2 ev])
  qed
  have general: "\<exists>s2'. pipeline sk s2 model dataset_id data labels = Inr (s2', predictions, ev) \<and>
        ambient s2' = ambient s2"
    if k2: "kinds (objects s2) model = kinds (objects s) model"
      and r: "fit_resets sk \<or>
                map_option fitted (objects s2 model) = map_option fitted (objects s model)"
    for s2 :: "('f, 'g) state"
  proof -
    from k2 obj obtain obj2 where o2: "objects s2 model = Some obj2" and p2: "params obj2 = params obj"
      by (auto simp: kinds_def)
    from r o2 obj have "fit_resets sk \<or> fitted obj2 = fitted obj" by auto
    from again[OF o2 p2 this] show ?thesis by simp
  qed
  have same: "pipeline sk (s1\<lparr>ambient := g\<rparr>) model dataset_id data labels =
      Inr (s1\<lparr>ambient := g\<rparr>, predictions, ev)" if r: "fit_resets sk" for g
  proof -
    let ?s = "s1\<lparr>ambient := g\<rparr>"
    have o2: "objects ?s model = Some (obj\<lparr>fitted := Some f\<rparr>)" by (simp add: s1)
    have "pipeline sk ?s model dataset_id data labels =
      Inr (?s\<lparr>objects := (objects ?s)(model \<mapsto> obj\<lparr>fitted := Some f\<rparr>\<lparr>fitted := Some f\<rparr>)\<rparr>,
           predictions, ev)"
      by (rule again[OF o2]) (use r in simp_all)
    moreover have "?s\<lparr>objects := (objects ?s)(model \<mapsto> obj\<lparr>fitted := Some f\<rparr>\<lparr>fitted := Some f\<rparr>)\<rparr> = ?s"
      by (simp add: s1)
    ultimately show ?thesis by simp
  qed
  from general same a1 show ?thesis by blast
qed

lemma ex_sk_resets: "fit_resets ex_sk"
  by (simp add: fit_resets_def ex_sk_def ex_fit_def)

lemma ex_tree_pipeline:
  "\<exists>ev. pipeline ex_sk (ex_tree_state g) 0 ''cervical_cancer'' ex_frame [Num 0, Num 1] =
     Inr ((ex_tree_state g)\<lparr>objects := (objects (ex_tree_state g))
             (0 \<mapsto> \<lparr>params = DecisionTreeClassifier 5 (Some 1), fitted = Some (Num 1)\<rparr>)\<rparr>,
          [Scalar (Num 1)], ev)"
proof -
  obtain ev where ev: "evaluate (tie_up ex_sk) [Num 0, Num 1] [PList [Scalar (Num 0)]]
      [Scalar (Num 1)] = Inr ev"
    by (simp add: evaluate_def check_targets_def column_or_1d_def same_kind_def is_Str_def
        is_class_label_def)
  have "classify ex_sk (ex_tree_state g) 0 ''cervical_cancer'' ex_frame =
     Inr ((ex_tree_state g)\<lparr>objects := (objects (ex_tree_state g))
             (0 \<mapsto> \<lparr>params = DecisionTreeClassifier 5 (Some 1), fitted = Some (Num 1)\<rparr>)\<rparr>,
          [Scalar (Num 1)], [PList [Scalar (Num 0)]])"
    unfolding classify_def ex_split
    by (simp add: ex_impute model_fit_def model_predict_def ex_tree_state_def ex_sk_def
        ex_fit_def ex_shuffle_def check_random_state_def select_def)
  with ev show ?thesis by (simp add: pipeline_def)
qed

theorem pipeline_twice_identical_witness:
  "fit_resets ex_sk \<and>
   (\<exists>s1 ev.
      pipeline ex_sk (ex_tree_state 0) 0 ''cervical_cancer'' ex_frame [Num 0, Num 1] =
        Inr (s1, [Scalar (Num 1)], ev) \<and>
      (\<exists>s2. pipeline ex_sk (ex_tree_state 7) 0 ''cervical_cancer'' ex_frame [Num 0, Num 1] =
        Inr (s2, [Scalar (Num 1)], ev)) \<and>
      pipeline ex_sk (s1\<lparr>ambient := 7\<rparr>) 0 ''cervical_cancer'' ex_frame [Num 0, Num 1] =
        Inr (s1\<lparr>ambient := 7\<rparr>, [Scalar (Num 1)], ev))"
proof -
  from ex_tree_pipeline[of 0] obtain s1 ev
    where first: "pipeline ex_sk (ex_tree_state 0) 0 ''cervical_cancer'' ex_frame [Num 0, Num 1] =
        Inr (s1, [Scalar (Num 1)], ev)"
    by blast
  have kind: "kinds (objects (ex_tree_state 0)) 0 = kinds (initial_heap :: nat \<rightharpoonup> cell object) 0"
    by (simp add: kinds_def ex_tree_state_def initial_heap_def)
  have k2: "kinds (objects (ex_tree_state 7)) 0 = kinds (objects (ex_tree_state 0)) 0"
    by (simp add: kinds_def ex_tree_state_def)
  note t = pipeline_twice_identical[OF first kind]
  from t k2 ex_sk_resets
  have "\<exists>s2. pipeline ex_sk (ex_tree_state 7) 0 ''cervical_cancer'' ex_frame [Num 0, Num 1] =
        Inr (s2, [Scalar (Num 1)], ev)"
    by blast
  moreover from t ex_sk_resets
  have "pipeline ex_sk (s1\<lparr>ambient := 7\<rparr>) 0 ''cervical_cancer'' ex_frame [Num 0, Num 1] =
        Inr (s1\<lparr>ambient := 7\<rparr>, [Scalar (Num 1)], ev)"
    by blast
  ultimately show ?thesis using first ex_sk_resets by blast
qed

text \<open>
  The seeds are what the result rests on: a tree created without \<^verbatim>\<open>random_state\<close>
  draws from the global generator, and two runs that find the generator in different
  states return different predictions.
\<close>

lemma unseeded_tree_not_reproducible:
  "map_sum id (\<lambda>(s, predictions, ev). predictions)
     (pipeline ex_sk (ex_unseeded_state 0) 0 ''cervical_cancer'' ex_frame [Num 0, Num 1]) =
     Inr [Scalar (Num 0)] \<and>
   map_sum id (\<lambda>(s, predictions, ev). predictions)
     (pipeline ex_sk (ex_unseeded_state 7) 0 ''cervical_cancer'' ex_frame [Num 0, Num 1]) =
     Inr [Scalar (Num 1)]"
  by code_simp

end
